theory Spec2Isabelle
  imports
    Main
    "HOL-Library.AList"
    "HOL-Library.Char_ord"
    "HOL-Library.List_Lexorder"
    "HOL-Library.Word"
begin

section \<open>JavaScript values\<close>

text \<open>
  The server (\<^verbatim>\<open>src/server.js\<close>) is a Socket.IO relay whose whole state is four
  JavaScript \<^verbatim>\<open>Map\<close>s. Payloads and acknowledgements are JavaScript objects; an object is
  an association list from property names to values, in property order. Numbers are the
  integers the server handles (millisecond timestamps, counts).
\<close>

datatype jsval =
    JUndefined
  | JNull
  | JBool bool
  | JNum int
  | JStr string
  | JArr "jsval list"
  | JObj "(string \<times> jsval) list"

type_synonym jsobj = "(string \<times> jsval) list"

text \<open>Truthiness, as tested by \<^verbatim>\<open>!x\<close> and \<^verbatim>\<open>x || y\<close>.\<close>

fun truthy :: "jsval \<Rightarrow> bool" where
  "truthy JUndefined = False"
| "truthy JNull = False"
| "truthy (JBool b) = b"
| "truthy (JNum n) = (n \<noteq> 0)"
| "truthy (JStr s) = (s \<noteq> [])"
| "truthy (JArr xs) = True"
| "truthy (JObj kvs) = True"

text \<open>\<^verbatim>\<open>a || b\<close>.\<close>

definition jsOr :: "jsval \<Rightarrow> jsval \<Rightarrow> jsval" where
  "jsOr a b = (if truthy a then a else b)"

text \<open>Property read \<^verbatim>\<open>obj.k\<close>: a missing property reads as \<^verbatim>\<open>undefined\<close>.\<close>

definition getProp :: "jsobj \<Rightarrow> string \<Rightarrow> jsval" where
  "getProp obj k = (case map_of obj k of None \<Rightarrow> JUndefined | Some v \<Rightarrow> v)"

text \<open>
  A string-valued field of an inbound payload is \<open>None\<close> when the client left it out.
  \<open>strOr\<close> is \<^verbatim>\<open>x || ''\<close> on such a field, \<open>present\<close> is its truthiness: the empty string
  counts as missing, as \<^verbatim>\<open>!x\<close> has it.
\<close>

definition present :: "string option \<Rightarrow> bool" where
  "present v = (case v of None \<Rightarrow> False | Some s \<Rightarrow> s \<noteq> [])"

definition strOr :: "string option \<Rightarrow> string \<Rightarrow> string" where
  "strOr v dflt = (case v of None \<Rightarrow> dflt | Some s \<Rightarrow> if s = [] then dflt else s)"

text \<open>
  A secret as a client can send it: a string, or binary data, which Socket.IO hands to the
  handler as a \<^verbatim>\<open>Buffer\<close>. \<^verbatim>\<open>hash.update\<close> takes either and hashes the UTF-8 bytes of
  the string or the bytes of the buffer, so both carry a byte list. A string is falsy when
  it is empty; a buffer is an object and is always truthy, also when it has no bytes.
\<close>

datatype secret = Text string | Binary string

fun bytes :: "secret \<Rightarrow> string" where
  "bytes (Text s) = s"
| "bytes (Binary b) = b"

definition truthySecret :: "secret option \<Rightarrow> bool" where
  "truthySecret v =
     (case v of None \<Rightarrow> False | Some (Text s) \<Rightarrow> s \<noteq> [] | Some (Binary b) \<Rightarrow> True)"

text \<open>\<^verbatim>\<open>password || ''\<close>.\<close>

definition secretOr :: "secret option \<Rightarrow> secret" where
  "secretOr v = (case v of None \<Rightarrow> Text [] | Some pw \<Rightarrow> if truthySecret v then pw else Text [])"

text \<open>
  A JavaScript \<^verbatim>\<open>Map\<close> keeps its keys in insertion order, and \<^verbatim>\<open>set\<close> on a key that is
  already there keeps the key's place: an association list with \<^const>\<open>AList.update\<close>
  (\<^verbatim>\<open>set\<close>), \<^const>\<open>AList.delete\<close> (\<^verbatim>\<open>delete\<close>), \<^const>\<open>map_of\<close> (\<^verbatim>\<open>get\<close>) and
  \<open>has\<close>.
\<close>

definition has :: "('k \<times> 'v) list \<Rightarrow> 'k \<Rightarrow> bool" where
  "has m k = (map_of m k \<noteq> None)"

section \<open>Phone normalisation and channel ids\<close>

text \<open>\<^verbatim>\<open>s.startsWith(p)\<close>.\<close>

definition startsWith :: "string \<Rightarrow> string \<Rightarrow> bool" where
  "startsWith s p = (take (length p) s = p)"

text \<open>
  \<^verbatim>\<open>phoneNumber.startsWith('+') ? phoneNumber : `+${phoneNumber}`\<close>, the expression that
  register, login, both phone lookups share (lines 43, 106, 180, 291).
\<close>

definition normalizePhone :: "string \<Rightarrow> string" where
  "normalizePhone phoneNumber =
     (if startsWith phoneNumber ''+'' then phoneNumber else ''+'' @ phoneNumber)"

definition is_digit :: "char \<Rightarrow> bool" where
  "is_digit c = (c \<in> set ''0123456789'')"

text \<open>\<^verbatim>\<open>xs.join(sep)\<close> on an array of strings.\<close>

fun join :: "string \<Rightarrow> string list \<Rightarrow> string" where
  "join sep [] = []"
| "join sep [x] = x"
| "join sep (x # y # ys) = x @ sep @ join sep (y # ys)"

text \<open>
  \<^verbatim>\<open>[userId1, userId2].sort().join('_')\<close>: the default sort compares strings by code unit,
  which is the lexicographic order on character lists.
\<close>

definition getChatId :: "string \<Rightarrow> string \<Rightarrow> string" where
  "getChatId userId1 userId2 = join ''_'' (sort [userId1, userId2])"

section \<open>Server state\<close>

record user =
  socketId :: "string option"
  phoneNumber :: string
  name :: string
  password :: string
  country :: string
  language :: string
  lastSeen :: int
  createdAt :: int

text \<open>
  The four maps of lines 19 to 22, and the memberships that \<^verbatim>\<open>socket.join\<close> creates in
  the Socket.IO adapter: pairs of a room (chat id) and a connection id. Socket.IO also
  keeps every open connection in a room named by the connection's own id; no handler
  touches that room and it is not recorded here.
\<close>

record state =
  users :: "(string \<times> user) list"
  messages :: "(string \<times> jsobj list) list"
  userSockets :: "(string \<times> string) list"
  usersByPhone :: "(string \<times> string) list"
  rooms :: "(string \<times> string) list"

definition init_state :: state where
  "init_state = \<lparr>users = [], messages = [], userSockets = [], usersByPhone = [], rooms = []\<rparr>"

text \<open>
  The payload \<^verbatim>\<open>data\<close> of an inbound event. Each handler destructures the properties it
  needs; a property the client did not send is \<open>None\<close>. Phone numbers, names and ids are
  strings, a secret is a string or binary data, a chat message is an object. A payload
  with a value of another type in one of these places is outside this model:
  \<^verbatim>\<open>startsWith\<close> and \<^verbatim>\<open>hash.update\<close> throw on it.
\<close>

record event_data =
  in_phoneNumber :: "string option"
  in_name :: "string option"
  in_password :: "secret option"
  in_country :: "string option"
  in_userId :: "string option"
  in_chatId :: "string option"
  in_message :: "jsobj option"

definition no_data :: event_data where
  "no_data = \<lparr>in_phoneNumber = None, in_name = None, in_password = None, in_country = None,
     in_userId = None, in_chatId = None, in_message = None\<rparr>"

section \<open>Acknowledgements\<close>

definition failure :: "string \<Rightarrow> jsval" where
  "failure msg = JObj [(''success'', JBool False), (''error'', JStr msg)]"

text \<open>The five error kinds of the specification, as the objects the handlers send.\<close>

definition MissingPhone :: jsval where
  "MissingPhone = failure ''Missing phoneNumber''"

definition MissingField :: jsval where
  "MissingField = failure ''Missing phoneNumber or password''"

definition AlreadyRegistered :: "string \<Rightarrow> jsval" where
  "AlreadyRegistered existingUserId =
     JObj [(''success'', JBool False), (''error'', JStr ''User already exists''),
           (''userId'', JStr existingUserId)]"

definition IdExhausted :: jsval where
  "IdExhausted = failure ''Failed to generate unique ID''"

definition NotFound :: jsval where
  "NotFound = failure ''User not found''"

definition InvalidCredential :: jsval where
  "InvalidCredential = failure ''Invalid password''"

definition Registered :: "string \<Rightarrow> jsval" where
  "Registered userId =
     JObj [(''success'', JBool True), (''userId'', JStr userId),
           (''message'', JStr ''Registration successful'')]"

text \<open>The public summary built at lines 132 to 139 (and again at 156, 186).\<close>

definition summary :: "string \<Rightarrow> user \<Rightarrow> jsval" where
  "summary userId u =
     JObj [(''id'', JStr userId), (''phoneNumber'', JStr (phoneNumber u)),
           (''name'', JStr (name u)), (''country'', JStr (country u)),
           (''language'', JStr (language u)), (''lastSeen'', JNum (lastSeen u))]"

definition LoggedIn :: "string \<Rightarrow> user \<Rightarrow> jsval" where
  "LoggedIn userId u =
     JObj [(''success'', JBool True), (''userId'', JStr userId), (''user'', summary userId u)]"

section \<open>Id generation\<close>

definition chars :: string where
  "chars = ''ABCDEFGHJKLMNPQRSTUVWXYZ23456789''"

text \<open>\<^verbatim>\<open>s.charAt(i)\<close>: the empty string out of range.\<close>

definition charAt :: "string \<Rightarrow> nat \<Rightarrow> string" where
  "charAt s i = (if i < length s then [s ! i] else [])"

text \<open>
  \<^verbatim>\<open>generateShortId\<close>. \<^verbatim>\<open>Math.floor(Math.random() * chars.length)\<close> is an index below 32;
  the random source is the stream of these indices, \<open>rnd i\<close> for the \<open>i\<close>-th draw.
\<close>

definition generateShortId :: "nat \<Rightarrow> (nat \<Rightarrow> 5 word) \<Rightarrow> string" where
  "generateShortId len rnd =
     fold (\<lambda>i result. result @ charAt chars (unat (rnd i))) [0..<len] []"

text \<open>
  The \<open>k\<close>-th id drawn inside one register call: each call of \<^verbatim>\<open>generateShortId(7)\<close>
  consumes the next seven draws.
\<close>

definition candidate :: "(nat \<Rightarrow> 5 word) \<Rightarrow> nat \<Rightarrow> string" where
  "candidate rnd k = generateShortId 7 (\<lambda>i. rnd (7 * k + i))"

text \<open>
  The loop of lines 65 to 68: \<^verbatim>\<open>while (users.has(userId) && attempts < 5)\<close>. It returns
  the last id drawn and the number of redraws.
\<close>

function retry :: "(string \<times> user) list \<Rightarrow> (nat \<Rightarrow> 5 word) \<Rightarrow> string \<Rightarrow> nat \<Rightarrow> string \<times> nat" where
  "retry us rnd userId attempts =
     (if has us userId \<and> attempts < 5
      then retry us rnd (candidate rnd (Suc attempts)) (Suc attempts)
      else (userId, attempts))"
  by pat_completeness auto
termination
  by (relation "measure (\<lambda>(us, rnd, userId, attempts). 5 - attempts)") auto

declare retry.simps [simp del]

section \<open>Event handlers\<close>

text \<open>
  The record stored by a successful registration (lines 75 to 88): the secret, or the empty
  string when the secret is falsy, is hashed; the connection that registers becomes the
  live one.
\<close>

definition new_user ::
  "(string \<Rightarrow> string) \<Rightarrow> string \<Rightarrow> string \<Rightarrow> int \<Rightarrow> int \<Rightarrow> event_data \<Rightarrow> user" where
  "new_user sha256 sock normalizedPhone now1 now2 d =
     \<lparr>socketId = Some sock, phoneNumber = normalizedPhone,
      name = strOr (in_name d) [], password = sha256 (bytes (secretOr (in_password d))),
      country = strOr (in_country d) [], language = ''en'',
      lastSeen = now1, createdAt = now2\<rparr>"

text \<open>
  \<^verbatim>\<open>register\<close> (lines 34 to 95). \<open>sha256\<close> is the digest of the \<^verbatim>\<open>crypto\<close> module,
  from the bytes hashed to the hexadecimal string,
  \<open>sock\<close> is \<^verbatim>\<open>socket.id\<close>, \<open>now1\<close> and \<open>now2\<close> are the two readings of \<^verbatim>\<open>Date.now()\<close>.
  The result is the new state and the acknowledgement passed to the callback.
\<close>

definition register ::
  "(string \<Rightarrow> string) \<Rightarrow> state \<Rightarrow> string \<Rightarrow> (nat \<Rightarrow> 5 word) \<Rightarrow> int \<Rightarrow> int \<Rightarrow> event_data
     \<Rightarrow> state \<times> jsval" where
  "register sha256 st sock rnd now1 now2 d =
     (case in_phoneNumber d of
        None \<Rightarrow> (st, MissingPhone)
      | Some p \<Rightarrow>
          if p = [] then (st, MissingPhone)
          else
            let normalizedPhone = normalizePhone p in
            (case map_of (usersByPhone st) normalizedPhone of
               Some existingUserId \<Rightarrow> (st, AlreadyRegistered existingUserId)
             | None \<Rightarrow>
                 let (userId, attempts) = retry (users st) rnd (candidate rnd 0) 0 in
                 if has (users st) userId then (st, IdExhausted)
                 else
                   let u = new_user sha256 sock normalizedPhone now1 now2 d
                   in (st\<lparr>users := AList.update userId u (users st),
                          usersByPhone := AList.update normalizedPhone userId (usersByPhone st),
                          userSockets := AList.update sock userId (userSockets st)\<rparr>,
                       Registered userId)))"

text \<open>\<^verbatim>\<open>login\<close> (lines 98 to 141).\<close>

definition login ::
  "(string \<Rightarrow> string) \<Rightarrow> state \<Rightarrow> string \<Rightarrow> int \<Rightarrow> event_data \<Rightarrow> state \<times> jsval" where
  "login sha256 st sock now d =
     (if \<not> present (in_phoneNumber d) \<or> \<not> truthySecret (in_password d)
      then (st, MissingField)
      else
        (case (in_phoneNumber d, in_password d) of
           (Some p, Some pw) \<Rightarrow>
             let normalizedPhone = normalizePhone p in
             (case map_of (usersByPhone st) normalizedPhone of
                None \<Rightarrow> (st, NotFound)
              | Some userId \<Rightarrow>
                  if userId = [] then (st, NotFound)
                  else
                    (case map_of (users st) userId of
                       None \<Rightarrow> (st, NotFound)
                     | Some u \<Rightarrow>
                         if password u \<noteq> sha256 (bytes pw) then (st, InvalidCredential)
                         else
                           let u' = u\<lparr>socketId := Some sock, lastSeen := now\<rparr>
                           in (st\<lparr>users := AList.update userId u' (users st),
                                  userSockets := AList.update sock userId (userSockets st)\<rparr>,
                               LoggedIn userId u')))
         | _ \<Rightarrow> (st, MissingField)))"

text \<open>\<^verbatim>\<open>find_user_by_id\<close> (lines 144 to 168).\<close>

definition find_user_by_id :: "state \<Rightarrow> event_data \<Rightarrow> jsval" where
  "find_user_by_id st d =
     (case in_userId d of
        None \<Rightarrow> JObj [(''error'', JStr ''Missing userId'')]
      | Some userId \<Rightarrow>
          if userId = [] then JObj [(''error'', JStr ''Missing userId'')]
          else
            (case map_of (users st) userId of
               Some u \<Rightarrow> JObj [(''success'', JBool True), (''user'', summary userId u)]
             | None \<Rightarrow> NotFound))"

text \<open>
  \<^verbatim>\<open>find_user_by_phone\<close> (lines 171 to 203): the first entry of \<^verbatim>\<open>users\<close>, in insertion
  order, whose phone is the normalised or the raw input.
\<close>

definition find_user_by_phone :: "state \<Rightarrow> event_data \<Rightarrow> jsval" where
  "find_user_by_phone st d =
     (case in_phoneNumber d of
        None \<Rightarrow> JObj [(''error'', JStr ''Missing phoneNumber'')]
      | Some p \<Rightarrow>
          if p = [] then JObj [(''error'', JStr ''Missing phoneNumber'')]
          else
            let normalizedPhone = normalizePhone p in
            (case find (\<lambda>(userId, u). phoneNumber u = normalizedPhone \<or> phoneNumber u = p)
                    (users st) of
               Some (userId, u) \<Rightarrow> JObj [(''success'', JBool True), (''user'', summary userId u)]
             | None \<Rightarrow> NotFound))"

text \<open>
  \<^verbatim>\<open>join_chat\<close> (lines 219 to 233): the connection enters the room and is sent the
  history. The result is the new state and the event emitted to the caller.
\<close>

definition join_chat :: "state \<Rightarrow> string \<Rightarrow> event_data \<Rightarrow> state \<times> string \<times> jsval" where
  "join_chat st sock d =
     (if \<not> present (in_chatId d) \<or> \<not> present (in_userId d)
      then (st, ''join_error'', JObj [(''message'', JStr ''Missing chatId or userId'')])
      else
        (case in_chatId d of
           Some chatId \<Rightarrow>
             let chatMessages = (case map_of (messages st) chatId of None \<Rightarrow> [] | Some ms \<Rightarrow> ms)
             in (st\<lparr>rooms := List.insert (chatId, sock) (rooms st)\<rparr>,
                 ''chat_history'',
                 JObj [(''chatId'', JStr chatId), (''messages'', JArr (map JObj chatMessages))])
         | None \<Rightarrow> (st, ''join_error'', JObj [(''message'', JStr ''Missing chatId or userId'')])))"

text \<open>
  The object \<^verbatim>\<open>{...message, timestamp: .., userId: ..}\<close> of lines 249 to 253: the
  properties of \<^verbatim>\<open>message\<close> in their order, the two named ones overwritten in place or
  added at the end.
\<close>

definition messageData :: "state \<Rightarrow> string \<Rightarrow> int \<Rightarrow> jsobj \<Rightarrow> jsobj" where
  "messageData st sock now message =
     AList.update ''userId''
       (jsOr (getProp message ''userId'')
          (jsOr (case map_of (userSockets st) sock of None \<Rightarrow> JUndefined | Some uid \<Rightarrow> JStr uid)
             (JStr ''unknown'')))
       (AList.update ''timestamp'' (jsOr (getProp message ''timestamp'') (JNum now)) message)"

text \<open>
  Where an event is emitted: \<^verbatim>\<open>socket.emit\<close> sends to the calling connection,
  \<^verbatim>\<open>io.to(room).emit\<close> to the room of that name. Which connections a room name reaches
  is Socket.IO's business and is not computed here.
\<close>

datatype target = ToSocket string | ToRoom string

text \<open>
  \<^verbatim>\<open>send_message\<close> (lines 236 to 264). The result is the new state, where the event is
  emitted, its name and its payload.
\<close>

definition send_message ::
  "state \<Rightarrow> string \<Rightarrow> int \<Rightarrow> event_data \<Rightarrow> state \<times> target \<times> string \<times> jsval" where
  "send_message st sock now d =
     (case (in_chatId d, in_message d) of
        (Some chatId, Some message) \<Rightarrow>
          if chatId = [] then
            (st, ToSocket sock, ''message_error'',
             JObj [(''message'', JStr ''Missing chatId or message'')])
          else
            let ms1 = (if \<not> has (messages st) chatId then AList.update chatId [] (messages st)
                       else messages st);
                md = messageData st sock now message;
                ms2 = (case map_of ms1 chatId of
                         Some history \<Rightarrow> AList.update chatId (history @ [md]) ms1
                       | None \<Rightarrow> ms1)
            in (st\<lparr>messages := ms2\<rparr>,
                ToRoom chatId,
                ''new_message'',
                JObj [(''chatId'', JStr chatId), (''message'', JObj md)])
      | _ \<Rightarrow>
          (st, ToSocket sock, ''message_error'',
           JObj [(''message'', JStr ''Missing chatId or message'')]))"

text \<open>The listener of \<^verbatim>\<open>disconnect\<close> (lines 267 to 280).\<close>

definition disconnect :: "state \<Rightarrow> string \<Rightarrow> int \<Rightarrow> state" where
  "disconnect st sock now =
     (case map_of (userSockets st) sock of
        None \<Rightarrow> st
      | Some userId \<Rightarrow>
          if userId = [] then st
          else
            let us = (case map_of (users st) userId of
                        None \<Rightarrow> users st
                      | Some u \<Rightarrow>
                          AList.update userId (u\<lparr>lastSeen := now, socketId := None\<rparr>) (users st))
            in st\<lparr>users := us, userSockets := AList.delete sock (userSockets st)\<rparr>)"

text \<open>
  Modelled from the spec: what the transport does to memberships when a connection closes.
  Socket.IO is not among the repository's files; section 3 of the specification has
  membership entries created on join and removed on disconnect, and Socket.IO takes a
  closing connection out of every room before it calls the listeners of
  \<^verbatim>\<open>disconnect\<close>.
\<close>

definition leaveAll :: "string \<Rightarrow> (string \<times> string) list \<Rightarrow> (string \<times> string) list" where
  "leaveAll sock rs = filter (\<lambda>(room, member). member \<noteq> sock) rs"

text \<open>A connection closes: it leaves its rooms, then the listener runs.\<close>

definition socket_closed :: "state \<Rightarrow> string \<Rightarrow> int \<Rightarrow> state" where
  "socket_closed st sock now = disconnect (st\<lparr>rooms := leaveAll sock (rooms st)\<rparr>) sock now"

text \<open>\<^verbatim>\<open>GET /user/:phone\<close> (lines 289 to 311), found through the phone index.\<close>

definition get_user :: "state \<Rightarrow> string \<Rightarrow> jsval" where
  "get_user st phone =
     (let normalizedPhone = normalizePhone phone in
      case map_of (usersByPhone st) normalizedPhone of
        None \<Rightarrow> JObj [(''error'', JStr ''User not found''), (''phone'', JStr normalizedPhone)]
      | Some userId \<Rightarrow>
          if userId = [] then
            JObj [(''error'', JStr ''User not found''), (''phone'', JStr normalizedPhone)]
          else
            (case map_of (users st) userId of
               None \<Rightarrow> JObj [(''error'', JStr ''User not found''), (''phone'', JStr normalizedPhone)]
             | Some u \<Rightarrow>
                 JObj [(''success'', JBool True),
                       (''user'', JObj [(''id'', JStr userId), (''phoneNumber'', JStr (phoneNumber u)),
                          (''name'', JStr (name u)), (''country'', JStr (country u)),
                          (''language'', JStr (language u)), (''lastSeen'', JNum (lastSeen u)),
                          (''createdAt'', JNum (createdAt u))])]))"

text \<open>\<^verbatim>\<open>DELETE /users\<close> (lines 329 to 347) and \<^verbatim>\<open>DELETE /users/clear\<close> (350 to 365).\<close>

definition clear_all :: "state \<Rightarrow> state \<times> jsval" where
  "clear_all st =
     (st\<lparr>users := [], usersByPhone := [], userSockets := [], messages := []\<rparr>,
      JObj [(''success'', JBool True), (''message'', JStr ''All users and messages cleared''),
            (''deleted'', JObj [(''users'', JNum (int (length (users st)))),
                               (''chats'', JNum (int (length (messages st))))])])"

definition clear_users :: "state \<Rightarrow> state \<times> jsval" where
  "clear_users st =
     (st\<lparr>users := [], usersByPhone := [], userSockets := []\<rparr>,
      JObj [(''success'', JBool True), (''message'', JStr ''All users cleared''),
            (''deleted'', JObj [(''users'', JNum (int (length (users st))))])])"

section \<open>Runs of the server\<close>

text \<open>
  One inbound event, with what the environment supplies to its handler: the connection id,
  the clock readings, the random draws.
\<close>

datatype event =
    Register string "nat \<Rightarrow> 5 word" int int event_data
  | Login string int event_data
  | JoinChat string event_data
  | SendMessage string int event_data
  | Disconnect string int
  | ClearAll
  | ClearUsers

fun step :: "(string \<Rightarrow> string) \<Rightarrow> state \<Rightarrow> event \<Rightarrow> state" where
  "step sha256 st (Register sock rnd now1 now2 d) = fst (register sha256 st sock rnd now1 now2 d)"
| "step sha256 st (Login sock now d) = fst (login sha256 st sock now d)"
| "step sha256 st (JoinChat sock d) = fst (join_chat st sock d)"
| "step sha256 st (SendMessage sock now d) = fst (send_message st sock now d)"
| "step sha256 st (Disconnect sock now) = socket_closed st sock now"
| "step sha256 st ClearAll = fst (clear_all st)"
| "step sha256 st ClearUsers = fst (clear_users st)"

definition run :: "(string \<Rightarrow> string) \<Rightarrow> state \<Rightarrow> event list \<Rightarrow> state" where
  "run sha256 st evs = foldl (step sha256) st evs"

section \<open>Predicates on states and runs\<close>

text \<open>
  The identity \<open>userId\<close> is consistently bound: when its record has a live connection,
  the connection index maps that connection back to \<open>userId\<close>.
\<close>

definition socket_bound :: "state \<Rightarrow> string \<Rightarrow> bool" where
  "socket_bound st userId =
     (case map_of (users st) userId of
        None \<Rightarrow> True
      | Some u \<Rightarrow>
          (case socketId u of
             None \<Rightarrow> True
           | Some s \<Rightarrow> map_of (userSockets st) s = Some userId))"

text \<open>The live connection of an identity: the \<^verbatim>\<open>socketId\<close> of its record, if any.\<close>

definition live :: "state \<Rightarrow> string \<Rightarrow> string option" where
  "live st userId = (case map_of (users st) userId of None \<Rightarrow> None | Some u \<Rightarrow> socketId u)"

text \<open>
  An acknowledgement reports success; it reports success for the identity \<open>userId\<close>. Both
  successful acknowledgements, of register and of login, carry \<^verbatim>\<open>success: true\<close> and the
  \<^verbatim>\<open>userId\<close>.
\<close>

definition succeeded :: "jsval \<Rightarrow> bool" where
  "succeeded r =
     (case r of JObj kvs \<Rightarrow> map_of kvs ''success'' = Some (JBool True) | _ \<Rightarrow> False)"

definition acknowledged :: "string \<Rightarrow> jsval \<Rightarrow> bool" where
  "acknowledged userId r =
     (case r of
        JObj kvs \<Rightarrow>
          map_of kvs ''success'' = Some (JBool True) \<and> map_of kvs ''userId'' = Some (JStr userId)
      | _ \<Rightarrow> False)"

text \<open>The connection and the acknowledgement of a register or login event.\<close>

fun ack_of :: "(string \<Rightarrow> string) \<Rightarrow> state \<Rightarrow> event \<Rightarrow> (string \<times> jsval) option" where
  "ack_of sha256 st (Register sock rnd now1 now2 d) =
     Some (sock, snd (register sha256 st sock rnd now1 now2 d))"
| "ack_of sha256 st (Login sock now d) = Some (sock, snd (login sha256 st sock now d))"
| "ack_of sha256 st _ = None"

text \<open>
  An event binds \<open>userId\<close> when it is a register or login that succeeds as \<open>userId\<close>. It
  displaces \<open>userId\<close> when it is a register or login that succeeds as another identity on
  the connection that is, at that moment, the live connection of \<open>userId\<close>.
\<close>

definition binds :: "(string \<Rightarrow> string) \<Rightarrow> state \<Rightarrow> event \<Rightarrow> string \<Rightarrow> bool" where
  "binds sha256 st e userId =
     (case ack_of sha256 st e of None \<Rightarrow> False | Some (sock, r) \<Rightarrow> acknowledged userId r)"

definition displaces :: "(string \<Rightarrow> string) \<Rightarrow> state \<Rightarrow> event \<Rightarrow> string \<Rightarrow> bool" where
  "displaces sha256 st e userId =
     (case ack_of sha256 st e of
        None \<Rightarrow> False
      | Some (sock, r) \<Rightarrow>
          live st userId = Some sock \<and> succeeded r \<and> \<not> acknowledged userId r)"

text \<open>
  Whether, at the end of the run \<open>evs\<close> from \<open>st\<close>, the live connection of \<open>userId\<close> has
  been taken over: \<open>userId\<close> has been displaced, and since then it has neither been bound
  again nor been without a live connection. \<open>t\<close> is the answer before the run.
\<close>

fun taken_over ::
  "(string \<Rightarrow> string) \<Rightarrow> state \<Rightarrow> event list \<Rightarrow> string \<Rightarrow> bool \<Rightarrow> bool" where
  "taken_over sha256 st [] userId t = t"
| "taken_over sha256 st (e # es) userId t =
     taken_over sha256 (step sha256 st e) es userId
       (if binds sha256 st e userId \<or> live (step sha256 st e) userId = None then False
        else t \<or> displaces sha256 st e userId)"

fun is_clear :: "event \<Rightarrow> bool" where
  "is_clear ClearAll = True"
| "is_clear ClearUsers = True"
| "is_clear _ = False"



section \<open>Example inputs\<close>

text \<open>
  A random source that always draws the same index, payloads, and the states of short
  runs with list reversal in place of the digest.
\<close>

definition draws :: "5 word \<Rightarrow> nat \<Rightarrow> 5 word" where
  "draws w i = w"

definition ann :: event_data where
  "ann = no_data\<lparr>in_phoneNumber := Some ''5551234'', in_name := Some ''Ann'',
     in_password := Some (Text ''hunter2'')\<rparr>"

definition bo :: event_data where
  "bo = no_data\<lparr>in_phoneNumber := Some ''+5557777'', in_name := Some ''Bo'',
     in_password := Some (Text ''sesame'')\<rparr>"

definition ann_user :: user where
  "ann_user = \<lparr>socketId = Some ''s1'', phoneNumber = ''+5551234'',
       name = ''Ann'', password = ''2retnuh'', country = [], language = ''en'', lastSeen = 10,
       createdAt = 11\<rparr>"

definition bo_user :: user where
  "bo_user = \<lparr>socketId = Some ''s1'', phoneNumber = ''+5557777'',
       name = ''Bo'', password = ''emases'', country = [], language = ''en'', lastSeen = 40,
       createdAt = 41\<rparr>"

definition ann_registered :: state where
  "ann_registered = fst (register rev init_state ''s1'' (draws 0) 10 11 ann)"

definition ann_offline :: state where
  "ann_offline = socket_closed ann_registered ''s1'' 20"

definition ann_back :: state where
  "ann_back = fst (login rev ann_offline ''s2'' 30 ann)"

definition both_online :: state where
  "both_online = fst (register rev ann_back ''s3'' (draws 1) 40 41 bo)"

definition later :: "event list" where
  "later = [Disconnect ''s1'' 20, Login ''s2'' 30 ann, Register ''s3'' (draws 1) 40 41 bo]"

text \<open>Bo registers on the connection Ann registered on.\<close>

definition takeover :: "event list" where
  "takeover = [Register ''s1'' (draws 0) 10 11 ann, Register ''s1'' (draws 1) 40 41 bo]"

definition bo_took_s1 :: state where
  "bo_took_s1 = fst (register rev ann_registered ''s1'' (draws 1) 40 41 bo)"

text \<open>Ann moves to another connection before Bo registers on her first one.\<close>

definition handover :: "event list" where
  "handover = [Register ''s1'' (draws 0) 10 11 ann, Login ''s2'' 30 ann,
     Register ''s1'' (draws 1) 40 41 bo]"

definition ann_moved :: state where
  "ann_moved = fst (login rev ann_registered ''s2'' 30 ann)"

definition bo_after_ann :: state where
  "bo_after_ann = fst (register rev ann_moved ''s1'' (draws 1) 40 41 bo)"


definition ann_wrong :: event_data where
  "ann_wrong = ann\<lparr>in_password := Some (Text ''guess'')\<rparr>"




text \<open>Cy registers without a secret, and logs in with a buffer of no bytes.\<close>

definition cy :: event_data where
  "cy = no_data\<lparr>in_phoneNumber := Some ''5559999''\<rparr>"

definition cy_user :: user where
  "cy_user = \<lparr>socketId = Some ''s1'', phoneNumber = ''+5559999'', name = [],
       password = [], country = [], language = ''en'', lastSeen = 10, createdAt = 11\<rparr>"

definition cy_registered :: state where
  "cy_registered = fst (register rev init_state ''s1'' (draws 0) 10 11 cy)"

definition cy_empty_buffer :: event_data where
  "cy_empty_buffer = cy\<lparr>in_password := Some (Binary [])\<rparr>"

definition cy_guess :: event_data where
  "cy_guess = cy\<lparr>in_password := Some (Text ''guess'')\<rparr>"

text \<open>Ann enters a chat room before her connection closes.\<close>

definition knock :: event_data where
  "knock = no_data\<lparr>in_chatId := Some ''lobby'', in_userId := Some ''AAAAAAA''\<rparr>"

definition ann_joined :: state where
  "ann_joined = fst (join_chat ann_registered ''s1'' knock)"

definition hello :: event_data where
  "hello = no_data\<lparr>in_chatId := Some ''AAAAAAA_BBBBBBB'',
     in_message := Some [(''text'', JStr ''hi'')]\<rparr>"

section \<open>Evaluating the examples\<close>

lemma cand0: "candidate (draws 0) k = ''AAAAAAA''"
  by (simp add: candidate_def generateShortId_def draws_def charAt_def chars_def upt_rec)

lemma cand1: "candidate (draws 1) k = ''BBBBBBB''"
  by (simp add: candidate_def generateShortId_def draws_def charAt_def chars_def upt_rec)

lemmas eval_register =
  register_def no_data_def normalizePhone_def startsWith_def has_def strOr_def secretOr_def
  truthySecret_def Let_def retry.simps new_user_def

lemmas eval_login =
  login_def no_data_def present_def truthySecret_def normalizePhone_def startsWith_def Let_def

lemma register_ann_full:
  "register rev init_state ''s1'' (draws 0) 10 11 ann =
     (\<lparr>users = [(''AAAAAAA'', ann_user)], messages = [],
       userSockets = [(''s1'', ''AAAAAAA'')],
       usersByPhone = [(''+5551234'', ''AAAAAAA'')], rooms = []\<rparr>, Registered ''AAAAAAA'')"
  by (simp add: eval_register init_state_def ann_def cand0 ann_user_def)

lemma ann_registered_eq:
  "ann_registered = \<lparr>users = [(''AAAAAAA'', ann_user)], messages = [],
       userSockets = [(''s1'', ''AAAAAAA'')],
       usersByPhone = [(''+5551234'', ''AAAAAAA'')], rooms = []\<rparr>"
  by (simp add: ann_registered_def register_ann_full)

lemma register_ann:
  "register rev init_state ''s1'' (draws 0) 10 11 ann = (ann_registered, Registered ''AAAAAAA'')"
  by (simp add: register_ann_full ann_registered_eq)

lemma ann_offline_eq:
  "ann_offline = \<lparr>users = [(''AAAAAAA'', ann_user\<lparr>lastSeen := 20, socketId := None\<rparr>)],
       messages = [], userSockets = [], usersByPhone = [(''+5551234'', ''AAAAAAA'')],
       rooms = []\<rparr>"
  by (simp add: ann_offline_def socket_closed_def leaveAll_def disconnect_def ann_registered_eq)

lemma login_ann_back:
  "login rev ann_offline ''s2'' 30 ann =
     (\<lparr>users = [(''AAAAAAA'', ann_user\<lparr>socketId := Some ''s2'', lastSeen := 30\<rparr>)],
       messages = [], userSockets = [(''s2'', ''AAAAAAA'')],
       usersByPhone = [(''+5551234'', ''AAAAAAA'')], rooms = []\<rparr>,
      LoggedIn ''AAAAAAA'' (ann_user\<lparr>socketId := Some ''s2'', lastSeen := 30\<rparr>))"
  by (simp add: ann_offline_eq eval_login ann_def ann_user_def)

lemma ann_back_eq:
  "ann_back = \<lparr>users = [(''AAAAAAA'', ann_user\<lparr>socketId := Some ''s2'', lastSeen := 30\<rparr>)],
       messages = [], userSockets = [(''s2'', ''AAAAAAA'')],
       usersByPhone = [(''+5551234'', ''AAAAAAA'')], rooms = []\<rparr>"
  by (simp add: ann_back_def login_ann_back)

lemma both_online_eq:
  "both_online = \<lparr>users = [(''AAAAAAA'', ann_user\<lparr>socketId := Some ''s2'', lastSeen := 30\<rparr>),
                 (''BBBBBBB'', bo_user\<lparr>socketId := Some ''s3''\<rparr>)],
       messages = [],
       userSockets = [(''s2'', ''AAAAAAA''), (''s3'', ''BBBBBBB'')],
       usersByPhone = [(''+5551234'', ''AAAAAAA''), (''+5557777'', ''BBBBBBB'')], rooms = []\<rparr>"
  by (simp add: both_online_def ann_back_eq eval_register bo_def cand1 bo_user_def)



lemma register_bo_takes_s1:
  "register rev ann_registered ''s1'' (draws 1) 40 41 bo =
     (\<lparr>users = [(''AAAAAAA'', ann_user), (''BBBBBBB'', bo_user)], messages = [],
       userSockets = [(''s1'', ''BBBBBBB'')],
       usersByPhone = [(''+5551234'', ''AAAAAAA''), (''+5557777'', ''BBBBBBB'')], rooms = []\<rparr>,
      Registered ''BBBBBBB'')"
  by (simp add: ann_registered_eq eval_register bo_def cand1 bo_user_def)

lemma bo_took_s1_eq:
  "bo_took_s1 = \<lparr>users = [(''AAAAAAA'', ann_user), (''BBBBBBB'', bo_user)], messages = [],
       userSockets = [(''s1'', ''BBBBBBB'')],
       usersByPhone = [(''+5551234'', ''AAAAAAA''), (''+5557777'', ''BBBBBBB'')], rooms = []\<rparr>"
  by (simp add: bo_took_s1_def register_bo_takes_s1)

lemma takeover_run: "run rev init_state takeover = bo_took_s1"
  by (simp add: run_def takeover_def register_ann bo_took_s1_def)

lemma login_ann_moves:
  "login rev ann_registered ''s2'' 30 ann =
     (\<lparr>users = [(''AAAAAAA'', ann_user\<lparr>socketId := Some ''s2'', lastSeen := 30\<rparr>)],
       messages = [], userSockets = [(''s1'', ''AAAAAAA''), (''s2'', ''AAAAAAA'')],
       usersByPhone = [(''+5551234'', ''AAAAAAA'')], rooms = []\<rparr>,
      LoggedIn ''AAAAAAA'' (ann_user\<lparr>socketId := Some ''s2'', lastSeen := 30\<rparr>))"
  by (simp add: ann_registered_eq eval_login ann_def ann_user_def)

lemma ann_moved_eq:
  "ann_moved = \<lparr>users = [(''AAAAAAA'', ann_user\<lparr>socketId := Some ''s2'', lastSeen := 30\<rparr>)],
       messages = [], userSockets = [(''s1'', ''AAAAAAA''), (''s2'', ''AAAAAAA'')],
       usersByPhone = [(''+5551234'', ''AAAAAAA'')], rooms = []\<rparr>"
  by (simp add: ann_moved_def login_ann_moves)

lemma register_bo_after_ann:
  "register rev ann_moved ''s1'' (draws 1) 40 41 bo =
     (\<lparr>users = [(''AAAAAAA'', ann_user\<lparr>socketId := Some ''s2'', lastSeen := 30\<rparr>),
                (''BBBBBBB'', bo_user)],
       messages = [], userSockets = [(''s1'', ''BBBBBBB''), (''s2'', ''AAAAAAA'')],
       usersByPhone = [(''+5551234'', ''AAAAAAA''), (''+5557777'', ''BBBBBBB'')], rooms = []\<rparr>,
      Registered ''BBBBBBB'')"
  by (simp add: ann_moved_eq eval_register bo_def cand1 bo_user_def)

lemma bo_after_ann_eq:
  "bo_after_ann =
     \<lparr>users = [(''AAAAAAA'', ann_user\<lparr>socketId := Some ''s2'', lastSeen := 30\<rparr>),
                (''BBBBBBB'', bo_user)],
       messages = [], userSockets = [(''s1'', ''BBBBBBB''), (''s2'', ''AAAAAAA'')],
       usersByPhone = [(''+5551234'', ''AAAAAAA''), (''+5557777'', ''BBBBBBB'')], rooms = []\<rparr>"
  by (simp add: bo_after_ann_def register_bo_after_ann)

lemma handover_run: "run rev init_state handover = bo_after_ann"
  by (simp add: run_def handover_def register_ann ann_moved_def bo_after_ann_def)



lemma register_cy_full:
  "register rev init_state ''s1'' (draws 0) 10 11 cy =
     (\<lparr>users = [(''AAAAAAA'', cy_user)], messages = [],
       userSockets = [(''s1'', ''AAAAAAA'')],
       usersByPhone = [(''+5559999'', ''AAAAAAA'')], rooms = []\<rparr>, Registered ''AAAAAAA'')"
  by (simp add: eval_register init_state_def cy_def cand0 cy_user_def)

lemma cy_registered_eq:
  "cy_registered = \<lparr>users = [(''AAAAAAA'', cy_user)], messages = [],
       userSockets = [(''s1'', ''AAAAAAA'')],
       usersByPhone = [(''+5559999'', ''AAAAAAA'')], rooms = []\<rparr>"
  by (simp add: cy_registered_def register_cy_full)

lemma register_cy:
  "register rev init_state ''s1'' (draws 0) 10 11 cy = (cy_registered, Registered ''AAAAAAA'')"
  by (simp add: register_cy_full cy_registered_eq)

lemma ann_joined_eq:
  "ann_joined = \<lparr>users = [(''AAAAAAA'', ann_user)], messages = [],
       userSockets = [(''s1'', ''AAAAAAA'')],
       usersByPhone = [(''+5551234'', ''AAAAAAA'')], rooms = [(''lobby'', ''s1'')]\<rparr>"
  by (simp add: ann_joined_def join_chat_def knock_def no_data_def present_def
      ann_registered_eq)

section \<open>The handlers case by case\<close>

lemma register_cases:
  obtains
    (missing) "\<not> present (in_phoneNumber d)"
      "register sha256 st sock rnd now1 now2 d = (st, MissingPhone)"
  | (exists) p existingUserId where "in_phoneNumber d = Some p" "p \<noteq> []"
      "map_of (usersByPhone st) (normalizePhone p) = Some existingUserId"
      "register sha256 st sock rnd now1 now2 d = (st, AlreadyRegistered existingUserId)"
  | (exhausted) p where "in_phoneNumber d = Some p" "p \<noteq> []"
      "map_of (usersByPhone st) (normalizePhone p) = None"
      "has (users st) (fst (retry (users st) rnd (candidate rnd 0) 0))"
      "register sha256 st sock rnd now1 now2 d = (st, IdExhausted)"
  | (added) p userId where "in_phoneNumber d = Some p" "p \<noteq> []"
      "map_of (usersByPhone st) (normalizePhone p) = None"
      "userId = fst (retry (users st) rnd (candidate rnd 0) 0)"
      "map_of (users st) userId = None"
      "register sha256 st sock rnd now1 now2 d =
         (st\<lparr>users := AList.update userId
                 (new_user sha256 sock (normalizePhone p) now1 now2 d) (users st),
             usersByPhone := AList.update (normalizePhone p) userId (usersByPhone st),
             userSockets := AList.update sock userId (userSockets st)\<rparr>,
          Registered userId)"
proof (cases "in_phoneNumber d")
  case None
  then show ?thesis using missing by (simp add: register_def present_def)
next
  case (Some p)
  show ?thesis
  proof (cases "p = []")
    case True
    with Some show ?thesis using missing by (simp add: register_def present_def)
  next
    case ne: False
    show ?thesis
    proof (cases "map_of (usersByPhone st) (normalizePhone p)")
      case (Some e)
      with \<open>in_phoneNumber d = Some p\<close> ne show ?thesis
        using exists by (simp add: register_def)
    next
      case None
      show ?thesis
      proof (cases "has (users st) (fst (retry (users st) rnd (candidate rnd 0) 0))")
        case True
        with \<open>in_phoneNumber d = Some p\<close> ne None show ?thesis
          using exhausted [of p]
          by (simp add: register_def Let_def split_beta)
      next
        case False
        with \<open>in_phoneNumber d = Some p\<close> ne None show ?thesis
          using added [of p "fst (retry (users st) rnd (candidate rnd 0) 0)"]
          by (simp add: register_def Let_def split_beta new_user_def has_def)
      qed
    qed
  qed
qed

lemma login_cases:
  obtains
    (missing) "\<not> present (in_phoneNumber d) \<or> \<not> truthySecret (in_password d)"
      "login sha256 st sock now d = (st, MissingField)"
  | (notfound) "login sha256 st sock now d = (st, NotFound)"
  | (invalid) "login sha256 st sock now d = (st, InvalidCredential)"
  | (ok) p pw userId u where "in_phoneNumber d = Some p" "p \<noteq> []"
      "in_password d = Some pw" "truthySecret (Some pw)"
      "map_of (usersByPhone st) (normalizePhone p) = Some userId" "userId \<noteq> []"
      "map_of (users st) userId = Some u" "password u = sha256 (bytes pw)"
      "login sha256 st sock now d =
         (st\<lparr>users := AList.update userId (u\<lparr>socketId := Some sock, lastSeen := now\<rparr>) (users st),
             userSockets := AList.update sock userId (userSockets st)\<rparr>,
          LoggedIn userId (u\<lparr>socketId := Some sock, lastSeen := now\<rparr>))"
proof (cases "\<not> present (in_phoneNumber d) \<or> \<not> truthySecret (in_password d)")
  case True
  then show ?thesis using missing by (simp add: login_def)
next
  case False
  then obtain p pw where f: "in_phoneNumber d = Some p" "p \<noteq> []" "in_password d = Some pw"
      "truthySecret (Some pw)"
    by (auto simp: present_def truthySecret_def split: option.splits)
  show ?thesis
  proof (cases "map_of (usersByPhone st) (normalizePhone p)")
    case None
    with f show ?thesis using notfound by (simp add: login_def present_def)
  next
    case (Some userId)
    note idx = this
    show ?thesis
    proof (cases "userId = []")
      case True
      with f idx show ?thesis using notfound by (simp add: login_def present_def)
    next
      case ne: False
      show ?thesis
      proof (cases "map_of (users st) userId")
        case None
        with f idx ne show ?thesis using notfound by (simp add: login_def present_def)
      next
        case (Some u)
        show ?thesis
        proof (cases "password u = sha256 (bytes pw)")
          case True
          with f idx ne Some show ?thesis
            using ok [of p pw userId u] by (simp add: login_def present_def Let_def)
        next
          case False
          with f idx ne Some show ?thesis
            using invalid by (simp add: login_def present_def)
        qed
      qed
    qed
  qed
qed


lemma Registered_inject:
  "Registered a \<noteq> MissingPhone" "Registered a \<noteq> AlreadyRegistered b"
  "Registered a \<noteq> IdExhausted" "Registered a = Registered b \<longleftrightarrow> a = b"
  by (simp_all add: Registered_def MissingPhone_def AlreadyRegistered_def IdExhausted_def
      failure_def)

lemma getProp_update: "getProp (AList.update k v obj) k' = (if k' = k then v else getProp obj k')"
  by (simp add: getProp_def update_conv')

section \<open>Phone normalisation\<close>

lemma normalizePhone_startsWith: "startsWith (normalizePhone p) ''+''"
  by (cases p) (auto simp: normalizePhone_def startsWith_def)

lemma normalizePhone_fixed: "startsWith p ''+'' \<Longrightarrow> normalizePhone p = p"
  by (simp add: normalizePhone_def)

lemma normalizePhone_digits:
  assumes "list_all is_digit p"
  shows "normalizePhone p = ''+'' @ p"
proof (cases p)
  case Nil
  then show ?thesis by (simp add: normalizePhone_def startsWith_def)
next
  case (Cons c cs)
  with assms have "is_digit c" by simp
  then have "c \<noteq> CHR ''+''" by (auto simp: is_digit_def)
  with Cons show ?thesis by (simp add: normalizePhone_def startsWith_def)
qed

text \<open>
  C5. Normalising is idempotent; a digit string \<open>p\<close> and \<open>p\<close> with a leading plus sign both
  normalise to \<open>p\<close> with a leading plus sign; \<open>1234567\<close> and \<open>+1234567\<close> both give
  \<open>+1234567\<close>.
\<close>

theorem normalizePhone_idempotent_digits:
  "normalizePhone (normalizePhone q) = normalizePhone q \<and>
   (list_all is_digit p \<longrightarrow>
      normalizePhone p = ''+'' @ p \<and> normalizePhone (''+'' @ p) = ''+'' @ p) \<and>
   normalizePhone ''1234567'' = ''+1234567'' \<and>
   normalizePhone ''+1234567'' = ''+1234567''"
proof -
  have "normalizePhone (normalizePhone q) = normalizePhone q"
    by (rule normalizePhone_fixed) (rule normalizePhone_startsWith)
  moreover have "normalizePhone (''+'' @ p) = ''+'' @ p"
    by (simp add: normalizePhone_def startsWith_def)
  moreover have "normalizePhone ''1234567'' = ''+1234567''"
    by (simp add: normalizePhone_def startsWith_def)
  moreover have "normalizePhone ''+1234567'' = ''+1234567''"
    by (simp add: normalizePhone_def startsWith_def)
  ultimately show ?thesis
    using normalizePhone_digits by blast
qed

theorem normalizePhone_idempotent_digits_witness:
  "list_all is_digit ''5551234'' \<and>
   normalizePhone (normalizePhone ''5551234'') = ''+5551234'' \<and>
   normalizePhone ''5551234'' = ''+5551234'' \<and>
   normalizePhone (''+'' @ ''5551234'') = ''+5551234''"
proof -
  have d: "list_all is_digit ''5551234''" by (simp add: is_digit_def)
  from normalizePhone_idempotent_digits [of "''5551234''" "''5551234''"] d
  show ?thesis by simp
qed

section \<open>Channel ids\<close>

text \<open>
  C6. The channel id does not depend on the order of the two ids, and it is the two ids in
  lexicographic order joined by an underscore.
\<close>

theorem getChatId_symmetric_sorted:
  "getChatId a b = getChatId b a \<and>
   getChatId a b = (if a \<le> b then a @ ''_'' @ b else b @ ''_'' @ a)"
  by (auto simp: getChatId_def)

section \<open>Id generation\<close>

lemma retry_spec:
  "retry us rnd uid0 a = (uid, n) \<Longrightarrow>
     a \<le> n \<and> (a \<le> 5 \<longrightarrow> n \<le> 5) \<and> uid = (if n = a then uid0 else candidate rnd n) \<and>
     (a < n \<longrightarrow> has us uid0) \<and>
     (\<forall>k. a < k \<and> k < n \<longrightarrow> has us (candidate rnd k)) \<and>
     (n < 5 \<longrightarrow> \<not> has us uid)"
proof (induction us rnd uid0 a rule: retry.induct)
  case (1 us rnd userId attempts)
  show ?case
  proof (cases "has us userId \<and> attempts < 5")
    case True
    with "1.prems" have r: "retry us rnd (candidate rnd (Suc attempts)) (Suc attempts) = (uid, n)"
      by (simp add: retry.simps [of us rnd userId attempts])
    note ih = "1.IH" [OF True r]
    from ih have le: "Suc attempts \<le> n" by blast
    have "\<forall>k. attempts < k \<and> k < n \<longrightarrow> has us (candidate rnd k)"
    proof (intro allI impI)
      fix k assume k: "attempts < k \<and> k < n"
      show "has us (candidate rnd k)"
      proof (cases "k = Suc attempts")
        case True
        with k ih show ?thesis by simp
      next
        case False
        with k have "Suc attempts < k \<and> k < n" by arith
        with ih show ?thesis by blast
      qed
    qed
    moreover from ih le have "uid = (if n = attempts then userId else candidate rnd n)"
      by (auto split: if_splits)
    moreover from ih True have "attempts \<le> 5 \<longrightarrow> n \<le> 5" by simp
    moreover from ih have "n < 5 \<longrightarrow> \<not> has us uid" by blast
    moreover from True have "attempts < n \<longrightarrow> has us userId" by simp
    moreover from le have "attempts \<le> n" by simp
    ultimately show ?thesis by blast
  next
    case False
    with "1.prems" have "uid = userId" "n = attempts"
      by (auto simp: retry.simps [of us rnd userId attempts])
    with False show ?thesis by auto
  qed
qed

text \<open>
  C8. A register call that passes the phone checks draws one id and redraws at most five
  times, each time because the id just drawn is taken; \<open>userId\<close> is the last id drawn. The
  call fails with \<open>IdExhausted\<close> exactly when that last id is taken, which is exactly when
  all six draws are taken, and then the state is the one it started from.
\<close>

theorem register_retry_bound:
  assumes phone: "in_phoneNumber d = Some p" "p \<noteq> []"
      "map_of (usersByPhone st) (normalizePhone p) = None"
    and loop: "retry (users st) rnd (candidate rnd 0) 0 = (userId, attempts)"
  shows "attempts \<le> 5 \<and> userId = candidate rnd attempts \<and>
     (\<forall>k<attempts. has (users st) (candidate rnd k)) \<and>
     (attempts < 5 \<longrightarrow> \<not> has (users st) userId) \<and>
     (snd (register sha256 st sock rnd now1 now2 d) = IdExhausted \<longleftrightarrow> has (users st) userId) \<and>
     (has (users st) userId \<longleftrightarrow> (\<forall>k\<le>5. has (users st) (candidate rnd k))) \<and>
     (snd (register sha256 st sock rnd now1 now2 d) = IdExhausted \<longrightarrow>
        fst (register sha256 st sock rnd now1 now2 d) = st)"
proof -
  note sp = retry_spec [OF loop]
  from sp have le: "attempts \<le> 5" by simp
  from sp have last: "userId = candidate rnd attempts" by (simp split: if_splits)
  have coll: "\<forall>k<attempts. has (users st) (candidate rnd k)"
  proof (intro allI impI)
    fix k assume "k < attempts"
    with sp show "has (users st) (candidate rnd k)" by (cases k) auto
  qed
  from sp have stop: "attempts < 5 \<longrightarrow> \<not> has (users st) userId" by blast
  have reg: "register sha256 st sock rnd now1 now2 d =
      (if has (users st) userId then (st, IdExhausted)
       else (fst (register sha256 st sock rnd now1 now2 d), Registered userId))"
    using phone loop by (simp add: register_def Let_def)
  have ex: "snd (register sha256 st sock rnd now1 now2 d) = IdExhausted \<longleftrightarrow> has (users st) userId"
    by (subst reg) (simp add: IdExhausted_def Registered_def failure_def)
  have all6: "has (users st) userId \<longleftrightarrow> (\<forall>k\<le>5. has (users st) (candidate rnd k))"
  proof
    assume h: "has (users st) userId"
    with stop le have a5: "attempts = 5" by simp
    show "\<forall>k\<le>5. has (users st) (candidate rnd k)"
    proof (intro allI impI)
      fix k :: nat assume "k \<le> 5"
      then have "k < attempts \<or> k = attempts" using a5 by arith
      with coll h last show "has (users st) (candidate rnd k)" by blast
    qed
  next
    assume "\<forall>k\<le>5. has (users st) (candidate rnd k)"
    with le last show "has (users st) userId" by simp
  qed
  have unch: "snd (register sha256 st sock rnd now1 now2 d) = IdExhausted \<longrightarrow>
        fst (register sha256 st sock rnd now1 now2 d) = st"
  proof
    assume "snd (register sha256 st sock rnd now1 now2 d) = IdExhausted"
    with ex have "has (users st) userId" by simp
    with reg show "fst (register sha256 st sock rnd now1 now2 d) = st" by simp
  qed
  from le last coll stop ex all6 unch show ?thesis by blast
qed

theorem register_retry_bound_witness:
  "in_phoneNumber bo = Some ''+5557777'' \<and>
   map_of (usersByPhone ann_registered) (normalizePhone ''+5557777'') = None \<and>
   retry (users ann_registered) (draws 0) (candidate (draws 0) 0) 0 = (''AAAAAAA'', 5) \<and>
   register rev ann_registered ''s2'' (draws 0) 20 21 bo = (ann_registered, IdExhausted)"
proof -
  have p: "in_phoneNumber bo = Some ''+5557777''" "''+5557777'' \<noteq> []"
    by (simp_all add: bo_def no_data_def)
  have idx: "map_of (usersByPhone ann_registered) (normalizePhone ''+5557777'') = None"
    by (simp add: ann_registered_eq normalizePhone_def startsWith_def)
  have loop: "retry (users ann_registered) (draws 0) (candidate (draws 0) 0) 0 = (''AAAAAAA'', 5)"
    by (simp add: ann_registered_eq cand0 has_def retry.simps)
  have h: "has (users ann_registered) ''AAAAAAA''"
    by (simp add: ann_registered_eq has_def)
  from register_retry_bound [OF p idx loop, of rev "''s2''" 20 21] h
  have "snd (register rev ann_registered ''s2'' (draws 0) 20 21 bo) = IdExhausted"
    "fst (register rev ann_registered ''s2'' (draws 0) 20 21 bo) = ann_registered"
    by simp_all
  then have "register rev ann_registered ''s2'' (draws 0) 20 21 bo = (ann_registered, IdExhausted)"
    by (simp add: prod_eq_iff)
  with p idx loop show ?thesis by simp
qed

section \<open>Registering a phone number twice\<close>





section \<open>Logging in\<close>

text \<open>
  C3. A login call that passes the field check (phone number and secret both sent and
  truthy), whose phone number resolves to a registered identity and whose secret hashes to
  something other than the stored credential, is answered with \<open>InvalidCredential\<close> and
  returns the state it was given: \<open>lastSeen\<close>, the live connection and every map are as
  before.
\<close>

theorem login_wrong_secret:
  assumes "in_phoneNumber d = Some p" "p \<noteq> []"
    and "in_password d = Some pw" "truthySecret (Some pw)"
    and "map_of (usersByPhone st) (normalizePhone p) = Some userId" "userId \<noteq> []"
    and "map_of (users st) userId = Some u"
    and "sha256 (bytes pw) \<noteq> password u"
  shows "login sha256 st sock now d = (st, InvalidCredential)"
  using assms by (auto simp: login_def present_def)

theorem login_wrong_secret_witness:
  "in_phoneNumber ann_wrong = Some ''5551234'' \<and>
   in_password ann_wrong = Some (Text ''guess'') \<and> truthySecret (Some (Text ''guess'')) \<and>
   map_of (usersByPhone ann_registered) (normalizePhone ''5551234'') = Some ''AAAAAAA'' \<and>
   map_of (users ann_registered) ''AAAAAAA'' = Some ann_user \<and>
   rev (bytes (Text ''guess'')) \<noteq> password ann_user \<and>
   login rev ann_registered ''s2'' 30 ann_wrong = (ann_registered, InvalidCredential)"
proof -
  have a: "in_phoneNumber ann_wrong = Some ''5551234''" "''5551234'' \<noteq> []"
    "in_password ann_wrong = Some (Text ''guess'')" "truthySecret (Some (Text ''guess''))"
    by (simp_all add: ann_wrong_def ann_def no_data_def truthySecret_def)
  have b: "map_of (usersByPhone ann_registered) (normalizePhone ''5551234'') = Some ''AAAAAAA''"
    "''AAAAAAA'' \<noteq> []"
    by (simp_all add: ann_registered_eq normalizePhone_def startsWith_def)
  have c: "map_of (users ann_registered) ''AAAAAAA'' = Some ann_user"
    by (simp add: ann_registered_eq)
  have d: "rev (bytes (Text ''guess'')) \<noteq> password ann_user" by (simp add: ann_user_def)
  from login_wrong_secret [where ?sha256.0 = rev and sock = "''s2''" and now = 30, OF a b c d]
    a b c d
  show ?thesis by simp
qed





section \<open>An identity registered without a secret\<close>

lemma length_generateShortId: "length (generateShortId n rnd) = n"
proof -
  have c: "length (charAt chars (unat (w :: 5 word))) = 1" for w
  proof -
    have "unat w < 2 ^ LENGTH(5)" by (rule unsigned_less)
    then show ?thesis by (simp add: charAt_def chars_def)
  qed
  have "length (fold (\<lambda>i result. result @ charAt chars (unat (rnd i))) [0..<n] acc) =
      length acc + n" for acc
    by (induction n arbitrary: acc) (simp_all add: c)
  then show ?thesis by (simp add: generateShortId_def)
qed

lemma candidate_nonempty: "candidate rnd k \<noteq> []"
proof -
  have "length (candidate rnd k) = 7" by (simp add: candidate_def length_generateShortId)
  then show ?thesis by auto
qed

lemma registered_id_nonempty:
  assumes "register sha256 st sock rnd now1 now2 d = (st1, Registered userId)"
  shows "userId \<noteq> []"
proof (cases rule: register_cases [of d sha256 st sock rnd now1 now2])
  case (added p uid)
  obtain n where "retry (users st) rnd (candidate rnd 0) 0 = (uid, n)"
    using added(4) by (cases "retry (users st) rnd (candidate rnd 0) 0") simp
  from retry_spec [OF this] have "uid = candidate rnd n" by (simp split: if_splits)
  moreover from added(6) assms have "uid = userId" by (simp add: Registered_inject)
  ultimately show ?thesis by (simp add: candidate_nonempty)
qed (use assms in \<open>simp_all add: Registered_inject\<close>)

lemma step_keeps_password:
  assumes "map_of (users st) i = Some u" "\<not> is_clear e"
  shows "\<exists>u'. map_of (users (step sha256 st e)) i = Some u' \<and> password u' = password u"
proof (cases e)
  case (Register sock rnd now1 now2 d)
  show ?thesis
  proof (cases rule: register_cases [of d sha256 st sock rnd now1 now2])
    case (added p userId)
    with assms have "i \<noteq> userId" by auto
    with added assms Register show ?thesis by (simp add: update_conv')
  qed (use assms Register in simp_all)
next
  case (Login sock now d)
  then show ?thesis
    using assms
    by (cases rule: login_cases [of d sha256 st sock now]) (auto simp: update_conv')
next
  case (JoinChat sock d)
  then show ?thesis using assms by (simp add: join_chat_def split: option.splits)
next
  case (SendMessage sock now d)
  then show ?thesis
    using assms by (simp add: send_message_def Let_def split: option.splits)
next
  case (Disconnect sock now)
  then show ?thesis
    using assms
    by (auto simp: socket_closed_def disconnect_def Let_def update_conv' split: option.splits)
qed (use assms in simp_all)

lemma run_keeps_password:
  "map_of (users st) i = Some u \<Longrightarrow> list_all (\<lambda>e. \<not> is_clear e) evs \<Longrightarrow>
     \<exists>u'. map_of (users (run sha256 st evs)) i = Some u' \<and> password u' = password u"
proof (induction evs arbitrary: st u)
  case Nil
  then show ?case by (simp add: run_def)
next
  case (Cons e evs)
  from Cons.prems obtain v where v: "map_of (users (step sha256 st e)) i = Some v"
      "password v = password u"
    using step_keeps_password [of st i u e sha256] by auto
  from Cons.prems have "list_all (\<lambda>e. \<not> is_clear e) evs" by simp
  from Cons.IH [OF v(1) this] v(2) show ?case by (simp add: run_def)
qed

lemma acknowledged_simps:
  "\<not> acknowledged i MissingField" "\<not> acknowledged i NotFound"
  "\<not> acknowledged i InvalidCredential" "acknowledged i (LoggedIn j u) \<longleftrightarrow> j = i"
  "acknowledged i (Registered j) \<longleftrightarrow> j = i" "\<not> acknowledged i MissingPhone"
  "\<not> acknowledged i (AlreadyRegistered j)" "\<not> acknowledged i IdExhausted"
  by (auto simp: acknowledged_def MissingField_def NotFound_def InvalidCredential_def
      LoggedIn_def Registered_def MissingPhone_def AlreadyRegistered_def IdExhausted_def
      failure_def)

lemma empty_bytes_truthy: "truthySecret (Some pw) \<Longrightarrow> bytes pw = [] \<Longrightarrow> pw = Binary []"
  by (cases pw) (simp_all add: truthySecret_def)

text \<open>
  C10, as stated, fails: an identity registered without a secret can authenticate. A
  buffer of no bytes is an object, so it passes the check of line 101, and its digest is
  the digest of the empty string, which is the stored credential. Cy registers without a
  secret and logs in with such a buffer.
\<close>

theorem empty_buffer_logs_in_counterexample:
  "\<not> truthySecret (in_password cy) \<and>
   register rev init_state ''s1'' (draws 0) 10 11 cy = (cy_registered, Registered ''AAAAAAA'') \<and>
   login rev cy_registered ''s2'' 20 cy_empty_buffer =
     (cy_registered\<lparr>users := [(''AAAAAAA'', cy_user\<lparr>socketId := Some ''s2'', lastSeen := 20\<rparr>)],
        userSockets := [(''s1'', ''AAAAAAA''), (''s2'', ''AAAAAAA'')]\<rparr>,
      LoggedIn ''AAAAAAA'' (cy_user\<lparr>socketId := Some ''s2'', lastSeen := 20\<rparr>)) \<and>
   acknowledged ''AAAAAAA'' (snd (login rev cy_registered ''s2'' 20 cy_empty_buffer))"
proof -
  have a: "\<not> truthySecret (in_password cy)"
    by (simp add: cy_def no_data_def truthySecret_def)
  have l: "login rev cy_registered ''s2'' 20 cy_empty_buffer =
     (cy_registered\<lparr>users := [(''AAAAAAA'', cy_user\<lparr>socketId := Some ''s2'', lastSeen := 20\<rparr>)],
        userSockets := [(''s1'', ''AAAAAAA''), (''s2'', ''AAAAAAA'')]\<rparr>,
      LoggedIn ''AAAAAAA'' (cy_user\<lparr>socketId := Some ''s2'', lastSeen := 20\<rparr>))"
    by (simp add: cy_registered_eq eval_login cy_empty_buffer_def cy_def cy_user_def)
  from a register_cy l show ?thesis by (simp add: acknowledged_simps)
qed

text \<open>
  C10, amended. A successful register call whose secret is absent or the empty string
  stores the digest of the empty input as the credential, and the identity keeps it through
  every event other than the two clear operations. From then on every login call whose
  secret is absent or the empty string is answered with \<open>MissingField\<close> and changes
  nothing, whatever the phone number. If no input other than the empty one has the digest
  of the empty input, no login call succeeds as that identity unless its secret is a buffer
  of no bytes; a login call whose phone number resolves to the identity is then answered
  with \<open>MissingField\<close> or \<open>InvalidCredential\<close> and changes nothing.
\<close>

theorem empty_secret_locked_out:
  assumes reg: "\<not> truthySecret (in_password d)"
      "register sha256 st sock rnd now1 now2 d = (st1, Registered userId)"
    and later: "list_all (\<lambda>e. \<not> is_clear e) evs" "st2 = run sha256 st1 evs"
  shows "(\<exists>u. map_of (users st2) userId = Some u \<and> password u = sha256 []) \<and>
     (\<not> truthySecret (in_password d') \<longrightarrow>
        login sha256 st2 sock' now' d' = (st2, MissingField)) \<and>
     ((\<forall>b. sha256 b = sha256 [] \<longrightarrow> b = []) \<and> in_password d' \<noteq> Some (Binary []) \<longrightarrow>
        \<not> acknowledged userId (snd (login sha256 st2 sock' now' d')) \<and>
        (\<forall>p'. in_phoneNumber d' = Some p' \<and>
              map_of (usersByPhone st2) (normalizePhone p') = Some userId \<longrightarrow>
           login sha256 st2 sock' now' d' = (st2, MissingField) \<or>
           login sha256 st2 sock' now' d' = (st2, InvalidCredential)))"
proof -
  from reg(1) have e: "bytes (secretOr (in_password d)) = []"
    by (auto simp: truthySecret_def secretOr_def split: option.splits secret.splits)
  have "\<exists>u. map_of (users st1) userId = Some u \<and> password u = sha256 []"
  proof (cases rule: register_cases [of d sha256 st sock rnd now1 now2])
    case (added q uid)
    from added(6) reg(2) have "uid = userId"
      and "users st1 = AList.update uid (new_user sha256 sock (normalizePhone q) now1 now2 d) (users st)"
      by (auto simp: Registered_inject)
    with e show ?thesis by (simp add: update_conv' new_user_def)
  qed (use reg(2) in \<open>simp_all add: Registered_inject\<close>)
  then obtain u1 where "map_of (users st1) userId = Some u1" "password u1 = sha256 []" by blast
  with later obtain u where u: "map_of (users st2) userId = Some u" "password u = sha256 []"
    using run_keeps_password [of st1 userId u1 evs sha256] by auto
  from reg(2) have ne: "userId \<noteq> []" by (rule registered_id_nonempty)
  have 1: "\<exists>u. map_of (users st2) userId = Some u \<and> password u = sha256 []"
    using u by blast
  have 2: "\<not> truthySecret (in_password d') \<longrightarrow>
        login sha256 st2 sock' now' d' = (st2, MissingField)"
    by (simp add: login_def)
  have 3: "\<not> acknowledged userId (snd (login sha256 st2 sock' now' d')) \<and>
        (\<forall>p'. in_phoneNumber d' = Some p' \<and>
              map_of (usersByPhone st2) (normalizePhone p') = Some userId \<longrightarrow>
           login sha256 st2 sock' now' d' = (st2, MissingField) \<or>
           login sha256 st2 sock' now' d' = (st2, InvalidCredential))"
    if h: "\<forall>b. sha256 b = sha256 [] \<longrightarrow> b = []" "in_password d' \<noteq> Some (Binary [])"
  proof -
    have wrong: "sha256 (bytes pw) \<noteq> password u"
      if pw: "in_password d' = Some pw" "truthySecret (Some pw)" for pw
    proof
      assume "sha256 (bytes pw) = password u"
      with u h(1) have "bytes pw = []" by simp
      with pw(2) have "pw = Binary []" by (rule empty_bytes_truthy)
      with pw(1) h(2) show False by simp
    qed
    have a: "\<not> acknowledged userId (snd (login sha256 st2 sock' now' d'))"
    proof (cases rule: login_cases [of d' sha256 st2 sock' now'])
      case (ok p pw j v)
      have "j \<noteq> userId"
      proof
        assume "j = userId"
        with ok u have "sha256 (bytes pw) = password u" by simp
        with wrong [OF ok(3,4)] show False by simp
      qed
      with ok show ?thesis by (simp add: acknowledged_simps)
    qed (simp_all add: acknowledged_simps)
    have b: "login sha256 st2 sock' now' d' = (st2, MissingField) \<or>
           login sha256 st2 sock' now' d' = (st2, InvalidCredential)"
      if r: "in_phoneNumber d' = Some p'"
        "map_of (usersByPhone st2) (normalizePhone p') = Some userId" for p'
    proof (cases "\<not> present (in_phoneNumber d') \<or> \<not> truthySecret (in_password d')")
      case True
      then show ?thesis by (simp add: login_def)
    next
      case False
      then obtain pw where pw: "in_password d' = Some pw" "truthySecret (Some pw)"
        by (cases "in_password d'") (auto simp: truthySecret_def)
      from False r have "p' \<noteq> []" by (simp add: present_def)
      with r pw ne u(1) wrong [OF pw] show ?thesis
        by (simp add: login_def present_def)
    qed
    from a b show ?thesis by blast
  qed
  from 1 2 3 show ?thesis by blast
qed

theorem empty_secret_locked_out_witness:
  "\<not> truthySecret (in_password cy) \<and>
   register rev init_state ''s1'' (draws 0) 10 11 cy = (cy_registered, Registered ''AAAAAAA'') \<and>
   map_of (users cy_registered) ''AAAAAAA'' = Some cy_user \<and> password cy_user = rev [] \<and>
   login rev cy_registered ''s2'' 20 cy = (cy_registered, MissingField) \<and>
   in_password cy_guess \<noteq> Some (Binary []) \<and>
   in_phoneNumber cy_guess = Some ''5559999'' \<and>
   map_of (usersByPhone cy_registered) (normalizePhone ''5559999'') = Some ''AAAAAAA'' \<and>
   login rev cy_registered ''s2'' 20 cy_guess = (cy_registered, InvalidCredential) \<and>
   \<not> acknowledged ''AAAAAAA'' (snd (login rev cy_registered ''s2'' 20 cy_guess))"
proof -
  have a: "\<not> truthySecret (in_password cy)"
    by (simp add: cy_def no_data_def truthySecret_def)
  have n: "list_all (\<lambda>e. \<not> is_clear e) []" by simp
  have r: "cy_registered = run rev cy_registered []" by (simp add: run_def)
  have u: "map_of (users cy_registered) ''AAAAAAA'' = Some cy_user" "password cy_user = rev []"
    by (simp_all add: cy_registered_eq cy_user_def)
  have g: "\<forall>b. rev b = rev [] \<longrightarrow> b = ([] :: string)" by simp
  have s: "in_password cy_guess \<noteq> Some (Binary [])" "in_phoneNumber cy_guess = Some ''5559999''"
    by (simp_all add: cy_guess_def cy_def no_data_def)
  have i: "map_of (usersByPhone cy_registered) (normalizePhone ''5559999'') = Some ''AAAAAAA''"
    by (simp add: cy_registered_eq normalizePhone_def startsWith_def)
  have m: "login rev cy_registered ''s2'' 20 cy_guess \<noteq> (cy_registered, MissingField)"
    by (simp add: cy_registered_eq eval_login cy_guess_def cy_def cy_user_def
        MissingField_def InvalidCredential_def failure_def)
  from empty_secret_locked_out [OF a register_cy n r, of cy "''s2''" 20] a
  have 1: "login rev cy_registered ''s2'' 20 cy = (cy_registered, MissingField)" by blast
  from empty_secret_locked_out [OF a register_cy n r, of cy_guess "''s2''" 20] g s i m
  have 2: "login rev cy_registered ''s2'' 20 cy_guess = (cy_registered, InvalidCredential)"
    and 3: "\<not> acknowledged ''AAAAAAA'' (snd (login rev cy_registered ''s2'' 20 cy_guess))"
    by blast+
  from a register_cy u s i 1 2 3 show ?thesis by blast
qed

section \<open>Storing a message\<close>

text \<open>
  C7. For a send_message call whose chat id and message are both present, \<open>md\<close> being the
  message as stored: its userId is the message's own userId when that is present
  (truthy, the test of \<^verbatim>\<open>||\<close>), otherwise the id the connection index holds for the
  sending connection when there is one, otherwise \<^verbatim>\<open>unknown\<close>; its timestamp is the
  message's own when present and the server's clock reading otherwise; every other
  property is the message's. \<open>md\<close> is the last element of the chat's history, which is the
  old history, or the empty one if the chat had none, followed by \<open>md\<close>. Nothing else
  changes, and \<open>md\<close> is what is broadcast to the room of the chat.
\<close>

theorem send_message_stores:
  assumes "in_chatId d = Some chatId" "chatId \<noteq> []" "in_message d = Some message"
    and "send_message st sock now d = (st', tgt, ev, payload)"
    and "md = messageData st sock now message"
  shows "map_of (messages st') chatId =
       Some ((case map_of (messages st) chatId of None \<Rightarrow> [] | Some history \<Rightarrow> history) @ [md]) \<and>
     (\<forall>c. c \<noteq> chatId \<longrightarrow> map_of (messages st') c = map_of (messages st) c) \<and>
     getProp md ''userId'' =
       (if truthy (getProp message ''userId'') then getProp message ''userId''
        else case map_of (userSockets st) sock of
               None \<Rightarrow> JStr ''unknown''
             | Some boundId \<Rightarrow> if boundId \<noteq> [] then JStr boundId else JStr ''unknown'') \<and>
     getProp md ''timestamp'' =
       (if truthy (getProp message ''timestamp'') then getProp message ''timestamp''
        else JNum now) \<and>
     (\<forall>k. k \<noteq> ''userId'' \<and> k \<noteq> ''timestamp'' \<longrightarrow> getProp md k = getProp message k) \<and>
     users st' = users st \<and> userSockets st' = userSockets st \<and>
     usersByPhone st' = usersByPhone st \<and> rooms st' = rooms st \<and>
     tgt = ToRoom chatId \<and> ev = ''new_message'' \<and>
     payload = JObj [(''chatId'', JStr chatId), (''message'', JObj md)]"
proof -
  let ?ms1 = "if \<not> has (messages st) chatId then AList.update chatId [] (messages st)
              else messages st"
  let ?old = "case map_of (messages st) chatId of None \<Rightarrow> [] | Some history \<Rightarrow> history"
  have ms1: "map_of ?ms1 chatId = Some ?old"
    by (auto simp: has_def update_conv')
  have ms1': "map_of ?ms1 c = map_of (messages st) c" if "c \<noteq> chatId" for c
    using that by (simp add: update_conv')
  from assms(1-4) ms1 have st': "st' = st\<lparr>messages := AList.update chatId (?old @ [md]) ?ms1\<rparr>"
    and out: "tgt = ToRoom chatId" "ev = ''new_message''"
      "payload = JObj [(''chatId'', JStr chatId), (''message'', JObj md)]"
    unfolding send_message_def Let_def assms(5) by simp_all
  from st' have a: "map_of (messages st') chatId = Some (?old @ [md])"
    by (simp add: update_conv')
  from st' ms1' have b: "\<forall>c. c \<noteq> chatId \<longrightarrow> map_of (messages st') c = map_of (messages st) c"
    by (simp add: update_conv')
  have c: "getProp md ''userId'' =
       (if truthy (getProp message ''userId'') then getProp message ''userId''
        else case map_of (userSockets st) sock of
               None \<Rightarrow> JStr ''unknown''
             | Some boundId \<Rightarrow> if boundId \<noteq> [] then JStr boundId else JStr ''unknown'')"
    unfolding assms(5) messageData_def
    by (simp add: getProp_update jsOr_def split: option.splits)
  have d: "getProp md ''timestamp'' =
       (if truthy (getProp message ''timestamp'') then getProp message ''timestamp''
        else JNum now)"
    unfolding assms(5) messageData_def by (simp add: getProp_update jsOr_def)
  have e: "\<forall>k. k \<noteq> ''userId'' \<and> k \<noteq> ''timestamp'' \<longrightarrow> getProp md k = getProp message k"
    unfolding assms(5) messageData_def by (simp add: getProp_update)
  from st' have f: "users st' = users st \<and> userSockets st' = userSockets st \<and>
     usersByPhone st' = usersByPhone st \<and> rooms st' = rooms st" by simp
  from a b c d e f out show ?thesis by blast
qed

theorem send_message_stores_witness:
  "in_chatId hello = Some ''AAAAAAA_BBBBBBB'' \<and> in_message hello = Some [(''text'', JStr ''hi'')] \<and>
   send_message both_online ''s3'' 60 hello =
     (both_online\<lparr>messages := [(''AAAAAAA_BBBBBBB'',
         [[(''text'', JStr ''hi''), (''timestamp'', JNum 60), (''userId'', JStr ''BBBBBBB'')]])]\<rparr>,
      ToRoom ''AAAAAAA_BBBBBBB'', ''new_message'',
      JObj [(''chatId'', JStr ''AAAAAAA_BBBBBBB''),
            (''message'', JObj [(''text'', JStr ''hi''), (''timestamp'', JNum 60),
               (''userId'', JStr ''BBBBBBB'')])]) \<and>
   map_of (messages (fst (send_message both_online ''s3'' 60 hello))) ''AAAAAAA_BBBBBBB'' =
     Some ([] @ [messageData both_online ''s3'' 60 [(''text'', JStr ''hi'')]]) \<and>
   getProp (messageData both_online ''s3'' 60 [(''text'', JStr ''hi'')]) ''userId'' = JStr ''BBBBBBB'' \<and>
   getProp (messageData both_online ''s3'' 60 [(''text'', JStr ''hi'')]) ''timestamp'' = JNum 60"
proof -
  let ?md = "messageData both_online ''s3'' 60 [(''text'', JStr ''hi'')]"
  have a: "in_chatId hello = Some ''AAAAAAA_BBBBBBB''" "''AAAAAAA_BBBBBBB'' \<noteq> []"
    "in_message hello = Some [(''text'', JStr ''hi'')]"
    by (simp_all add: hello_def no_data_def)
  have m: "?md = [(''text'', JStr ''hi''), (''timestamp'', JNum 60), (''userId'', JStr ''BBBBBBB'')]"
    by (simp add: messageData_def both_online_eq getProp_def jsOr_def)
  have s: "send_message both_online ''s3'' 60 hello =
     (both_online\<lparr>messages := [(''AAAAAAA_BBBBBBB'',
         [[(''text'', JStr ''hi''), (''timestamp'', JNum 60), (''userId'', JStr ''BBBBBBB'')]])]\<rparr>,
      ToRoom ''AAAAAAA_BBBBBBB'', ''new_message'',
      JObj [(''chatId'', JStr ''AAAAAAA_BBBBBBB''),
            (''message'', JObj [(''text'', JStr ''hi''), (''timestamp'', JNum 60),
               (''userId'', JStr ''BBBBBBB'')])])"
    using a m by (simp add: send_message_def Let_def has_def both_online_eq)
  have t: "map_of (messages both_online) ''AAAAAAA_BBBBBBB'' = None"
    "map_of (userSockets both_online) ''s3'' = Some ''BBBBBBB''"
    by (simp_all add: both_online_eq)
  have e: "send_message both_online ''s3'' 60 hello =
      (fst (send_message both_online ''s3'' 60 hello), ToRoom ''AAAAAAA_BBBBBBB'', ''new_message'',
       JObj [(''chatId'', JStr ''AAAAAAA_BBBBBBB''),
            (''message'', JObj [(''text'', JStr ''hi''), (''timestamp'', JNum 60),
               (''userId'', JStr ''BBBBBBB'')])])"
    by (simp add: s)
  from send_message_stores [OF a e refl] t
  have "map_of (messages (fst (send_message both_online ''s3'' 60 hello))) ''AAAAAAA_BBBBBBB'' =
     Some ([] @ [?md])"
    and "getProp ?md ''userId'' = JStr ''BBBBBBB''"
    and "getProp ?md ''timestamp'' = JNum 60"
    by (simp_all add: getProp_def)
  with a s show ?thesis by simp
qed

section \<open>Disconnecting\<close>

lemma find_update_first:
  assumes "map_of al k = Some u" "P (k, u)" "P (k, v)" "find P al = Some (k, x)"
  shows "find P (AList.update k v al) = Some (k, v)"
  using assms
proof (induction al)
  case Nil
  then show ?case by simp
next
  case (Cons e al)
  obtain i y where e: "e = (i, y)" by (cases e)
  show ?case
  proof (cases "i = k")
    case True
    with Cons.prems e show ?thesis by simp
  next
    case False
    with Cons.prems e have "\<not> P (i, y)" by (auto split: if_splits)
    with Cons False e show ?thesis by simp
  qed
qed

lemma keys_update_present:
  "map_of al k = Some u \<Longrightarrow> map fst (AList.update k v al) = map fst al"
  by (induction al) (auto split: if_splits)

lemma summary_inject:
  "summary a u = summary b v \<Longrightarrow> a = b \<and> phoneNumber u = phoneNumber v"
  by (simp add: summary_def)

text \<open>
  C9, as stated, fails for memberships: the connection that closes is taken out of its
  rooms. Ann's connection is in the room \<open>lobby\<close> before it closes and not after.
\<close>

theorem disconnect_drops_membership_counterexample:
  "map_of (userSockets ann_joined) ''s1'' = Some ''AAAAAAA'' \<and>
   map_of (users ann_joined) ''AAAAAAA'' = Some ann_user \<and>
   (''lobby'', ''s1'') \<in> set (rooms ann_joined) \<and>
   (''lobby'', ''s1'') \<notin> set (rooms (socket_closed ann_joined ''s1'' 20)) \<and>
   rooms (socket_closed ann_joined ''s1'' 20) \<noteq> rooms ann_joined"
  by (simp add: ann_joined_eq socket_closed_def leaveAll_def disconnect_def)

text \<open>
  C9, amended. When a connection bound to a registered identity closes, that identity's
  record keeps every field but two: lastSeen is stamped and the live connection is cleared.
  The connection's entry leaves the connection index, and the connection leaves the rooms
  it was in. Every other identity, the order of the identities, every other connection's
  entry and memberships, the phone index and the histories are as before. The identity is
  still found by id, and by phone through either lookup that found it before.
\<close>

theorem disconnect_frame:
  assumes bound: "map_of (userSockets st) sock = Some userId" "userId \<noteq> []"
    and user: "map_of (users st) userId = Some u"
    and after: "st' = socket_closed st sock now" "u' = u\<lparr>lastSeen := now, socketId := None\<rparr>"
  shows "map_of (users st') userId = Some u' \<and>
     phoneNumber u' = phoneNumber u \<and> name u' = name u \<and> password u' = password u \<and>
     country u' = country u \<and> language u' = language u \<and> createdAt u' = createdAt u \<and>
     (\<forall>other. other \<noteq> userId \<longrightarrow> map_of (users st') other = map_of (users st) other) \<and>
     map fst (users st') = map fst (users st) \<and>
     map_of (userSockets st') sock = None \<and>
     (\<forall>s. s \<noteq> sock \<longrightarrow> map_of (userSockets st') s = map_of (userSockets st) s) \<and>
     usersByPhone st' = usersByPhone st \<and> messages st' = messages st \<and>
     rooms st' = filter (\<lambda>(room, member). member \<noteq> sock) (rooms st) \<and>
     (\<forall>room member. member \<noteq> sock \<longrightarrow>
        ((room, member) \<in> set (rooms st') \<longleftrightarrow> (room, member) \<in> set (rooms st))) \<and>
     (\<forall>room. (room, sock) \<notin> set (rooms st')) \<and>
     find_user_by_id st' (no_data\<lparr>in_userId := Some userId\<rparr>) =
       JObj [(''success'', JBool True), (''user'', summary userId u')] \<and>
     (\<forall>q. find_user_by_phone st q = JObj [(''success'', JBool True), (''user'', summary userId u)]
        \<longrightarrow> find_user_by_phone st' q =
              JObj [(''success'', JBool True), (''user'', summary userId u')]) \<and>
     (\<forall>phone. map_of (usersByPhone st) (normalizePhone phone) = Some userId
        \<longrightarrow> map_of (usersByPhone st') (normalizePhone phone) = Some userId \<and>
            get_user st' phone =
              JObj [(''success'', JBool True),
                    (''user'', JObj [(''id'', JStr userId), (''phoneNumber'', JStr (phoneNumber u)),
                       (''name'', JStr (name u)), (''country'', JStr (country u)),
                       (''language'', JStr (language u)), (''lastSeen'', JNum now),
                       (''createdAt'', JNum (createdAt u))])])"
proof -
  from bound user after
  have st': "st' = st\<lparr>rooms := leaveAll sock (rooms st),
                      users := AList.update userId u' (users st),
                      userSockets := AList.delete sock (userSockets st)\<rparr>"
    by (simp add: socket_closed_def disconnect_def)
  from st' have 1: "map_of (users st') userId = Some u'"
    and 2: "\<forall>other. other \<noteq> userId \<longrightarrow> map_of (users st') other = map_of (users st) other"
    and 3: "map_of (userSockets st') sock = None"
    and 4: "\<forall>s. s \<noteq> sock \<longrightarrow> map_of (userSockets st') s = map_of (userSockets st) s"
    and 5: "usersByPhone st' = usersByPhone st \<and> messages st' = messages st"
    by (simp_all add: update_conv' delete_conv')
  from st' have 11: "rooms st' = filter (\<lambda>(room, member). member \<noteq> sock) (rooms st)"
    by (simp add: leaveAll_def)
  then have 12: "\<forall>room member. member \<noteq> sock \<longrightarrow>
        ((room, member) \<in> set (rooms st') \<longleftrightarrow> (room, member) \<in> set (rooms st))"
    and 13: "\<forall>room. (room, sock) \<notin> set (rooms st')"
    by simp_all
  from st' user have 6: "map fst (users st') = map fst (users st)"
    by (simp add: keys_update_present)
  from after have 7: "phoneNumber u' = phoneNumber u \<and> name u' = name u \<and> password u' = password u \<and>
     country u' = country u \<and> language u' = language u \<and> createdAt u' = createdAt u" by simp
  from 1 bound have 8: "find_user_by_id st' (no_data\<lparr>in_userId := Some userId\<rparr>) =
       JObj [(''success'', JBool True), (''user'', summary userId u')]"
    by (simp add: find_user_by_id_def)
  have 9: "find_user_by_phone st' q = JObj [(''success'', JBool True), (''user'', summary userId u')]"
    if h: "find_user_by_phone st q = JObj [(''success'', JBool True), (''user'', summary userId u)]"
    for q
  proof -
    from h obtain p where p: "in_phoneNumber q = Some p" "p \<noteq> []"
      by (auto simp: find_user_by_phone_def NotFound_def failure_def split: option.splits if_splits)
    let ?P = "\<lambda>(userId, u). phoneNumber u = normalizePhone p \<or> phoneNumber u = p"
    from h p obtain i x where f: "find ?P (users st) = Some (i, x)"
      and s: "summary i x = summary userId u"
      by (auto simp: find_user_by_phone_def NotFound_def failure_def Let_def split: option.splits)
    from s have ix: "i = userId" "phoneNumber x = phoneNumber u"
      using summary_inject by blast+
    from f have "?P (i, x)" by (auto simp: find_Some_iff)
    with ix have Pu: "?P (userId, u)" by simp
    with after have Pu': "?P (userId, u')" by simp
    from f ix have "find ?P (users st) = Some (userId, x)" by simp
    from find_update_first [OF user Pu Pu' this]
    have "find ?P (users st') = Some (userId, u')" using st' by simp
    with p show ?thesis by (simp add: find_user_by_phone_def Let_def)
  qed
  have 10: "map_of (usersByPhone st') (normalizePhone phone) = Some userId \<and>
            get_user st' phone =
              JObj [(''success'', JBool True),
                    (''user'', JObj [(''id'', JStr userId), (''phoneNumber'', JStr (phoneNumber u)),
                       (''name'', JStr (name u)), (''country'', JStr (country u)),
                       (''language'', JStr (language u)), (''lastSeen'', JNum now),
                       (''createdAt'', JNum (createdAt u))])]"
    if "map_of (usersByPhone st) (normalizePhone phone) = Some userId" for phone
    using that 1 5 bound after by (simp add: get_user_def Let_def)
  from 1 2 3 4 5 6 7 8 9 10 11 12 13 show ?thesis by simp
qed

theorem disconnect_frame_witness:
  "map_of (userSockets ann_joined) ''s1'' = Some ''AAAAAAA'' \<and>
   map_of (users ann_joined) ''AAAAAAA'' = Some ann_user \<and>
   map_of (users (socket_closed ann_joined ''s1'' 20)) ''AAAAAAA'' =
     Some (ann_user\<lparr>lastSeen := 20, socketId := None\<rparr>) \<and>
   map_of (userSockets (socket_closed ann_joined ''s1'' 20)) ''s1'' = None \<and>
   usersByPhone (socket_closed ann_joined ''s1'' 20) = usersByPhone ann_joined \<and>
   rooms (socket_closed ann_joined ''s1'' 20) = [] \<and>
   find_user_by_id (socket_closed ann_joined ''s1'' 20) (no_data\<lparr>in_userId := Some ''AAAAAAA''\<rparr>) =
     JObj [(''success'', JBool True),
           (''user'', summary ''AAAAAAA'' (ann_user\<lparr>lastSeen := 20, socketId := None\<rparr>))] \<and>
   find_user_by_phone (socket_closed ann_joined ''s1'' 20) ann =
     JObj [(''success'', JBool True),
           (''user'', summary ''AAAAAAA'' (ann_user\<lparr>lastSeen := 20, socketId := None\<rparr>))]"
proof -
  have a: "map_of (userSockets ann_joined) ''s1'' = Some ''AAAAAAA''" "''AAAAAAA'' \<noteq> []"
    by (simp_all add: ann_joined_eq)
  have b: "map_of (users ann_joined) ''AAAAAAA'' = Some ann_user"
    by (simp add: ann_joined_eq)
  have r: "filter (\<lambda>(room, member). member \<noteq> ''s1'') (rooms ann_joined) = []"
    by (simp add: ann_joined_eq)
  have f: "find_user_by_phone ann_joined ann =
      JObj [(''success'', JBool True), (''user'', summary ''AAAAAAA'' ann_user)]"
    by (simp add: find_user_by_phone_def ann_def no_data_def ann_joined_eq ann_user_def
        normalizePhone_def startsWith_def)
  from disconnect_frame [OF a b refl refl, of 20] f r a b show ?thesis by simp
qed

section \<open>The live connection and the connection index\<close>

lemma socket_bound_live:
  "socket_bound st i \<longleftrightarrow>
     (case live st i of None \<Rightarrow> True | Some s \<Rightarrow> map_of (userSockets st) s = Some i)"
  by (simp add: socket_bound_def live_def split: option.splits)

lemma succeeded_simps:
  "\<not> succeeded MissingField" "\<not> succeeded NotFound" "\<not> succeeded InvalidCredential"
  "succeeded (LoggedIn j u)" "succeeded (Registered j)" "\<not> succeeded MissingPhone"
  "\<not> succeeded (AlreadyRegistered j)" "\<not> succeeded IdExhausted"
  by (simp_all add: succeeded_def MissingField_def NotFound_def InvalidCredential_def
      LoggedIn_def Registered_def MissingPhone_def AlreadyRegistered_def IdExhausted_def
      failure_def)

lemma unchanged_bound_iff:
  assumes "users st' = users st" "userSockets st' = userSockets st"
    and "\<not> binds sha256 st e i" "\<not> displaces sha256 st e i"
  shows "socket_bound st' i \<longleftrightarrow>
     (binds sha256 st e i \<or> live st' i = None \<or> (socket_bound st i \<and> \<not> displaces sha256 st e i))"
  using assms by (auto simp: socket_bound_live live_def split: option.splits)

lemma bind_bound_iff:
  assumes st': "users st' = AList.update j u' (users st)"
      "userSockets st' = AList.update sock j (userSockets st)"
    and u': "socketId u' = Some sock"
    and old: "j \<noteq> i \<longrightarrow> live st' i = live st i"
    and b: "binds sha256 st e i \<longleftrightarrow> j = i"
    and d: "displaces sha256 st e i \<longleftrightarrow> live st i = Some sock \<and> j \<noteq> i"
  shows "socket_bound st' i \<longleftrightarrow>
     (binds sha256 st e i \<or> live st' i = None \<or> (socket_bound st i \<and> \<not> displaces sha256 st e i))"
proof (cases "j = i")
  case True
  with st' u' have "socket_bound st' i"
    by (simp add: socket_bound_def update_conv')
  with True b show ?thesis by simp
next
  case False
  with old have l: "live st' i = live st i" by simp
  show ?thesis
  proof (cases "live st i")
    case None
    with l show ?thesis by (simp add: socket_bound_live)
  next
    case (Some s)
    with l False st' b d show ?thesis
      by (auto simp: socket_bound_live update_conv')
  qed
qed

lemma step_bound_iff:
  "socket_bound (step sha256 st e) i \<longleftrightarrow>
     (binds sha256 st e i \<or> live (step sha256 st e) i = None \<or>
      (socket_bound st i \<and> \<not> displaces sha256 st e i))"
proof (cases e)
  case (Register sock rnd now1 now2 d)
  show ?thesis
  proof (cases rule: register_cases [of d sha256 st sock rnd now1 now2])
    case (added p userId)
    let ?u = "new_user sha256 sock (normalizePhone p) now1 now2 d"
    show ?thesis
    proof (rule bind_bound_iff [where j = userId and sock = sock and u' = ?u])
      show "users (step sha256 st e) = AList.update userId ?u (users st)"
        "userSockets (step sha256 st e) = AList.update sock userId (userSockets st)"
        using added Register by simp_all
      show "socketId ?u = Some sock" by (simp add: new_user_def)
      show "userId \<noteq> i \<longrightarrow> live (step sha256 st e) i = live st i"
        using added Register by (simp add: live_def update_conv')
      show "binds sha256 st e i \<longleftrightarrow> userId = i"
        using added Register by (simp add: binds_def acknowledged_simps)
      show "displaces sha256 st e i \<longleftrightarrow> live st i = Some sock \<and> userId \<noteq> i"
        using added Register by (simp add: displaces_def acknowledged_simps succeeded_simps)
    qed
  qed (use Register in \<open>(intro unchanged_bound_iff;
        simp add: binds_def displaces_def acknowledged_simps succeeded_simps)+\<close>)
next
  case (Login sock now d)
  show ?thesis
  proof (cases rule: login_cases [of d sha256 st sock now])
    case (ok p pw userId u)
    let ?u = "u\<lparr>socketId := Some sock, lastSeen := now\<rparr>"
    show ?thesis
    proof (rule bind_bound_iff [where j = userId and sock = sock and u' = ?u])
      show "users (step sha256 st e) = AList.update userId ?u (users st)"
        "userSockets (step sha256 st e) = AList.update sock userId (userSockets st)"
        using ok Login by simp_all
      show "socketId ?u = Some sock" by simp
      show "userId \<noteq> i \<longrightarrow> live (step sha256 st e) i = live st i"
        using ok Login by (simp add: live_def update_conv')
      show "binds sha256 st e i \<longleftrightarrow> userId = i"
        using ok Login by (simp add: binds_def acknowledged_simps)
      show "displaces sha256 st e i \<longleftrightarrow> live st i = Some sock \<and> userId \<noteq> i"
        using ok Login by (simp add: displaces_def acknowledged_simps succeeded_simps)
    qed
  qed (use Login in \<open>(intro unchanged_bound_iff;
        simp add: binds_def displaces_def acknowledged_simps succeeded_simps)+\<close>)
next
  case (JoinChat sock d)
  show ?thesis unfolding JoinChat
    by (intro unchanged_bound_iff)
      (simp_all add: join_chat_def binds_def displaces_def split: option.splits)
next
  case (SendMessage sock now d)
  show ?thesis unfolding SendMessage
    by (intro unchanged_bound_iff)
      (simp_all add: send_message_def Let_def binds_def displaces_def split: option.splits)
next
  case (Disconnect sock now)
  have nb: "\<not> binds sha256 st e i" "\<not> displaces sha256 st e i"
    using Disconnect by (simp_all add: binds_def displaces_def)
  show ?thesis
  proof (cases "map_of (userSockets st) sock")
    case None
    then have "users (step sha256 st e) = users st" "userSockets (step sha256 st e) = userSockets st"
      using Disconnect by (simp_all add: socket_closed_def disconnect_def)
    from unchanged_bound_iff [OF this nb] show ?thesis .
  next
    case (Some j)
    show ?thesis
    proof (cases "j = []")
      case True
      with Some have "users (step sha256 st e) = users st"
        "userSockets (step sha256 st e) = userSockets st"
        using Disconnect by (simp_all add: socket_closed_def disconnect_def)
      from unchanged_bound_iff [OF this nb] show ?thesis .
    next
      case ne: False
      let ?us = "case map_of (users st) j of None \<Rightarrow> users st
        | Some u \<Rightarrow> AList.update j (u\<lparr>lastSeen := now, socketId := None\<rparr>) (users st)"
      from Some ne Disconnect have st': "users (step sha256 st e) = ?us"
        "userSockets (step sha256 st e) = AList.delete sock (userSockets st)"
        by (simp_all add: socket_closed_def disconnect_def split: option.splits)
      show ?thesis
      proof (cases "j = i")
        case True
        with st' have "live (step sha256 st e) i = None"
          by (simp add: live_def update_conv' split: option.splits)
        then show ?thesis by (simp add: socket_bound_live)
      next
        case False
        with st' have l: "live (step sha256 st e) i = live st i"
          by (simp add: live_def update_conv' split: option.splits)
        show ?thesis
        proof (cases "live st i")
          case None
          with l show ?thesis by (simp add: socket_bound_live)
        next
          case (Some s)
          have "map_of (AList.delete sock (userSockets st)) s = Some i \<longleftrightarrow>
              map_of (userSockets st) s = Some i"
            using \<open>map_of (userSockets st) sock = Some j\<close> False
            by (auto simp: delete_conv')
          with l Some st' nb show ?thesis by (simp add: socket_bound_live)
        qed
      qed
    qed
  qed
next
  case ClearAll
  then show ?thesis by (simp add: clear_all_def socket_bound_def live_def)
next
  case ClearUsers
  then show ?thesis by (simp add: clear_users_def socket_bound_def live_def)
qed

lemma run_bound_iff:
  "(t \<longleftrightarrow> \<not> socket_bound st i) \<Longrightarrow>
     (taken_over sha256 st evs i t \<longleftrightarrow> \<not> socket_bound (run sha256 st evs) i)"
proof (induction evs arbitrary: st t)
  case Nil
  then show ?case by (simp add: run_def)
next
  case (Cons e evs)
  let ?t = "if binds sha256 st e i \<or> live (step sha256 st e) i = None then False
        else t \<or> displaces sha256 st e i"
  from Cons.prems have "?t \<longleftrightarrow> \<not> socket_bound (step sha256 st e) i"
    by (subst step_bound_iff) auto
  from Cons.IH [OF this] show ?case by (simp add: run_def)
qed

lemma login_ann_moves_named:
  "login rev ann_registered ''s2'' 30 ann =
     (ann_moved, LoggedIn ''AAAAAAA'' (ann_user\<lparr>socketId := Some ''s2'', lastSeen := 30\<rparr>))"
  by (simp add: login_ann_moves ann_moved_eq)

lemma register_bo_after_ann_named:
  "register rev ann_moved ''s1'' (draws 1) 40 41 bo = (bo_after_ann, Registered ''BBBBBBB'')"
  by (simp add: register_bo_after_ann bo_after_ann_eq)

lemma register_bo_takes_s1_named:
  "register rev ann_registered ''s1'' (draws 1) 40 41 bo = (bo_took_s1, Registered ''BBBBBBB'')"
  by (simp add: register_bo_takes_s1 bo_took_s1_eq)

lemma live_examples:
  "live init_state i = None"
  "live ann_registered ''AAAAAAA'' = Some ''s1''" "live ann_registered ''BBBBBBB'' = None"
  "live ann_moved ''AAAAAAA'' = Some ''s2''" "live ann_moved ''BBBBBBB'' = None"
  "live bo_after_ann ''AAAAAAA'' = Some ''s2''" "live bo_after_ann ''BBBBBBB'' = Some ''s1''"
  "live bo_took_s1 ''AAAAAAA'' = Some ''s1''" "live bo_took_s1 ''BBBBBBB'' = Some ''s1''"
  by (simp_all add: live_def init_state_def ann_registered_eq ann_moved_eq bo_after_ann_eq
      bo_took_s1_eq ann_user_def bo_user_def)

lemmas eval_taken_over =
  binds_def displaces_def acknowledged_simps succeeded_simps live_examples register_ann
  login_ann_moves_named register_bo_after_ann_named register_bo_takes_s1_named

text \<open>
  C1, as stated, fails: a connection that registers a second identity takes the index
  entry of the first, whose record still names that connection. After Ann and then Bo
  register on connection \<open>s1\<close>, Ann's record has \<open>s1\<close> as its live connection and the index
  maps \<open>s1\<close> to Bo.
\<close>

theorem socket_index_counterexample:
  "\<not> socket_bound
       (run rev init_state
          [Register ''s1'' (draws 0) 10 11 ann, Register ''s1'' (draws 1) 40 41 bo])
       ''AAAAAAA''"
proof -
  have "run rev init_state
      [Register ''s1'' (draws 0) 10 11 ann, Register ''s1'' (draws 1) 40 41 bo] = bo_took_s1"
    using takeover_run by (simp add: takeover_def)
  then show ?thesis by (simp add: bo_took_s1_eq socket_bound_def ann_user_def)
qed

text \<open>
  C1, amended. In every state reached from the initial one by register, login, join_chat,
  send_message, disconnect and clear events, an identity whose record has a live connection
  is the identity the connection index holds for that connection if and only if that
  connection has not been taken over: no register or login has succeeded on it as another
  identity since this identity last registered or logged in.
\<close>

theorem socket_index_consistent_unless_taken_over:
  "socket_bound (run sha256 init_state evs) userId \<longleftrightarrow>
     \<not> taken_over sha256 init_state evs userId False"
proof -
  have "False \<longleftrightarrow> \<not> socket_bound init_state userId"
    by (simp add: socket_bound_def init_state_def)
  from run_bound_iff [OF this] show ?thesis by simp
qed

theorem socket_index_consistent_unless_taken_over_witness:
  "\<not> taken_over rev init_state handover ''AAAAAAA'' False \<and>
   \<not> taken_over rev init_state handover ''BBBBBBB'' False \<and>
   socket_bound (run rev init_state handover) ''AAAAAAA'' \<and>
   socket_bound (run rev init_state handover) ''BBBBBBB'' \<and>
   taken_over rev init_state takeover ''AAAAAAA'' False \<and>
   \<not> taken_over rev init_state takeover ''BBBBBBB'' False \<and>
   \<not> socket_bound (run rev init_state takeover) ''AAAAAAA'' \<and>
   socket_bound (run rev init_state takeover) ''BBBBBBB''"
proof -
  have h: "\<not> taken_over rev init_state handover ''AAAAAAA'' False"
    "\<not> taken_over rev init_state handover ''BBBBBBB'' False"
    by (simp_all add: handover_def eval_taken_over)
  have t: "taken_over rev init_state takeover ''AAAAAAA'' False"
    "\<not> taken_over rev init_state takeover ''BBBBBBB'' False"
    by (simp_all add: takeover_def eval_taken_over)
  from h t
    socket_index_consistent_unless_taken_over [of rev handover "''AAAAAAA''"]
    socket_index_consistent_unless_taken_over [of rev handover "''BBBBBBB''"]
    socket_index_consistent_unless_taken_over [of rev takeover "''AAAAAAA''"]
    socket_index_consistent_unless_taken_over [of rev takeover "''BBBBBBB''"]
  show ?thesis by blast
qed

end
